theory Spec2Isabelle
  imports Main "HOL-Library.Word" "HOL-Library.AList"
begin

section \<open>Conventions\<close>

text \<open>
  The development embeds three parts of the repository:
  \<^item> \<open>EphemeralTokenManager\<close> (the server-side credential authority),
  \<^item> \<open>SecurityMiddleware\<close> (request validation and rate limiting),
  \<^item> \<open>EnhancedGenAILiveClient\<close> (the client-side session connector).

  A JavaScript \<open>Date\<close> and the result of \<open>Date.now()\<close> are both modelled by the
  number of milliseconds since the epoch, an \<open>int\<close>. Every function that reads the clock
  takes the reading as an argument called \<open>now\<close>. A JavaScript \<open>Map\<close> or \<open>Set\<close> that
  the code iterates over is an association list or a duplicate-free list in insertion
  order; a \<open>Map\<close> that is only looked up by key is a HOL map. Console output, the
  monitoring calls and the \<open>log\<close> events carry no state that a later step reads and are
  left out. Strings are \<open>char list\<close>; \<open>charCodeAt\<close> is \<open>of_char\<close>, so the model
  covers strings of code units below 256.
\<close>

section \<open>String helpers\<close>

definition startsWith :: "string \<Rightarrow> string \<Rightarrow> bool" where
  "startsWith s p = (take (length p) s = p)"

text \<open>\<open>String.prototype.includes\<close>: the pattern occurs as a contiguous substring.\<close>

fun includesStr :: "string \<Rightarrow> string \<Rightarrow> bool" where
  "includesStr [] p = (p = [])"
| "includesStr (c # cs) p = (startsWith (c # cs) p \<or> includesStr cs p)"

definition digit36 :: "nat \<Rightarrow> char" where
  "digit36 d = ''0123456789abcdefghijklmnopqrstuvwxyz'' ! d"

text \<open>\<open>Number.prototype.toString(36)\<close> on a non-negative integer.\<close>

function toString36 :: "nat \<Rightarrow> string" where
  "toString36 n =
     (if n < 36 then [digit36 n] else toString36 (n div 36) @ [digit36 (n mod 36)])"
  by pat_completeness auto
termination
  by (relation "measure (\<lambda>n. n)") auto

declare toString36.simps [simp del]

text \<open>
  The string hash shared by \<open>generateTokenId\<close> and \<open>simpleHash\<close>:
  \<^verbatim>\<open>hash = ((hash << 5) - hash) + char; hash = hash & hash;\<close>
  The shift and the final \<open>&\<close> work on 32-bit integers, the subtraction and the addition
  in between are exact, so one round is the same computation modulo \<open>2^32\<close>.
  \<open>Math.abs\<close> is taken on the signed reading.
\<close>

definition hashStep :: "32 word \<Rightarrow> char \<Rightarrow> 32 word" where
  "hashStep h c = (push_bit 5 h - h) + of_nat (of_char c)"

definition hashString :: "string \<Rightarrow> 32 word" where
  "hashString s = foldl hashStep 0 s"

definition simpleHash :: "string \<Rightarrow> string" where
  "simpleHash s = toString36 (nat \<bar>sint (hashString s)\<bar>)"

section \<open>EphemeralTokenManager\<close>

subsection \<open>Data\<close>

record EphemeralToken =
  token :: string
  expiresAt :: int
  usesRemaining :: int
  sessionId :: string
  scope :: "string list"
  createdAt :: int
  lastUsed :: "int option"

record TokenStorageEntry =
  entryToken :: EphemeralToken
  refreshCount :: nat
  issuedFor :: string

record CreateTokenOptions =
  optUses :: "int option"
  optExpirationMinutes :: "int option"
  optSessionId :: "string option"
  optScope :: "string list option"

record TokenManager =
  tokenStorage :: "(string \<times> TokenStorageEntry) list"
  sessionTokens :: "(string \<times> string list) list"
  maxTokensPerSession :: nat
  defaultExpirationMinutes :: int
  defaultUses :: int

definition newTokenManager :: TokenManager where
  "newTokenManager =
     \<lparr>tokenStorage = [], sessionTokens = [], maxTokensPerSession = 3,
      defaultExpirationMinutes = 30, defaultUses = 1\<rparr>"

datatype tokenError =
    UsesOutOfRange
  | ExpirationOutOfRange
  | SessionLimitReached nat
  | FailedToCreate string

subsection \<open>Private helpers\<close>

definition generateTokenId :: "string \<Rightarrow> string" where
  "generateTokenId tokenString = ''token_'' @ simpleHash tokenString"

definition validateTokenParams :: "int \<Rightarrow> int \<Rightarrow> tokenError option" where
  "validateTokenParams uses expirationMinutes =
     (if uses < 1 \<or> uses > 5 then Some UsesOutOfRange
      else if expirationMinutes < 1 \<or> expirationMinutes > 30 then Some ExpirationOutOfRange
      else None)"

definition sessionTokenIds :: "TokenManager \<Rightarrow> string \<Rightarrow> string list" where
  "sessionTokenIds m sid = (case map_of (sessionTokens m) sid of None \<Rightarrow> [] | Some ids \<Rightarrow> ids)"

text \<open>The validity test that \<open>enforceSessionTokenLimit\<close> and \<open>getSessionStatus\<close> share.\<close>

definition tokenActive :: "int \<Rightarrow> EphemeralToken \<Rightarrow> bool" where
  "tokenActive now t = (expiresAt t > now \<and> usesRemaining t > 0)"

definition activeTokens :: "TokenManager \<Rightarrow> int \<Rightarrow> string \<Rightarrow> TokenStorageEntry list" where
  "activeTokens m now sid =
     filter (\<lambda>e. tokenActive now (entryToken e))
       (List.map_filter (map_of (tokenStorage m)) (sessionTokenIds m sid))"

definition enforceSessionTokenLimit :: "TokenManager \<Rightarrow> int \<Rightarrow> string \<Rightarrow> tokenError option" where
  "enforceSessionTokenLimit m now sid =
     (if length (activeTokens m now sid) \<ge> maxTokensPerSession m
      then Some (SessionLimitReached (maxTokensPerSession m)) else None)"

definition setAdd :: "'a list \<Rightarrow> 'a \<Rightarrow> 'a list" where
  "setAdd xs x = (if x \<in> set xs then xs else xs @ [x])"

definition addTokenToSession :: "string \<Rightarrow> string \<Rightarrow> TokenManager \<Rightarrow> TokenManager" where
  "addTokenToSession sid tokenId m =
     m\<lparr>sessionTokens := AList.update sid (setAdd (sessionTokenIds m sid) tokenId) (sessionTokens m)\<rparr>"

definition removeTokenFromSession :: "string \<Rightarrow> string \<Rightarrow> TokenManager \<Rightarrow> TokenManager" where
  "removeTokenFromSession sid tokenId m =
     (case map_of (sessionTokens m) sid of
        None \<Rightarrow> m
      | Some ids \<Rightarrow>
          let ids' = removeAll tokenId ids in
          if ids' = [] then m\<lparr>sessionTokens := AList.delete sid (sessionTokens m)\<rparr>
          else m\<lparr>sessionTokens := AList.update sid ids' (sessionTokens m)\<rparr>)"

subsection \<open>createToken\<close>

text \<open>
  \<open>createToken\<close> is an \<open>async\<close> function with one \<open>await\<close>, on the external issuing
  call. The part before the \<open>await\<close> (defaults, parameter validation, the session
  limit) runs in one piece when the function is called; the part after it (building the
  token, storing it, recording it for the session) runs in one piece when the issuer has
  answered. Other calls on the same manager can run in between, so the two parts are
  separate functions, joined by the request that is in flight. \<open>generated\<close> stands for
  the result of \<open>generateSessionId()\<close>; the issuer's answer is \<open>Inr name\<close>, or
  \<open>Inl message\<close> when the call is rejected.
\<close>

record PendingCreate =
  pcUses :: int
  pcExpiration :: int
  pcSessionId :: string
  pcScope :: "string list"
  pcClientId :: string

definition createToken_begin ::
  "TokenManager \<Rightarrow> int \<Rightarrow> CreateTokenOptions \<Rightarrow> string \<Rightarrow> string \<Rightarrow> tokenError + PendingCreate" where
  "createToken_begin m now options generated clientId =
     (let uses = (case optUses options of None \<Rightarrow> defaultUses m | Some u \<Rightarrow> u);
          expirationMinutes =
            (case optExpirationMinutes options of None \<Rightarrow> defaultExpirationMinutes m | Some e \<Rightarrow> e);
          sid = (case optSessionId options of None \<Rightarrow> generated | Some s \<Rightarrow> s);
          sc = (case optScope options of None \<Rightarrow> [''gemini-live-api''] | Some x \<Rightarrow> x)
      in case validateTokenParams uses expirationMinutes of
           Some e \<Rightarrow> Inl e
         | None \<Rightarrow>
             (case enforceSessionTokenLimit m now sid of
                Some e \<Rightarrow> Inl e
              | None \<Rightarrow>
                  Inr \<lparr>pcUses = uses, pcExpiration = now + expirationMinutes * 60 * 1000,
                       pcSessionId = sid, pcScope = sc, pcClientId = clientId\<rparr>))"

definition createToken_resume ::
  "TokenManager \<Rightarrow> int \<Rightarrow> PendingCreate \<Rightarrow> string + string
     \<Rightarrow> (tokenError + EphemeralToken) \<times> TokenManager" where
  "createToken_resume m now p issued =
     (case issued of
        Inl err \<Rightarrow> (Inl (FailedToCreate err), m)
      | Inr name \<Rightarrow>
          let tok = \<lparr>token = name, expiresAt = pcExpiration p, usesRemaining = pcUses p,
                     sessionId = pcSessionId p, scope = pcScope p, createdAt = now,
                     lastUsed = None\<rparr>;
              tokenId = generateTokenId name;
              storageEntry = \<lparr>entryToken = tok, refreshCount = 0, issuedFor = pcClientId p\<rparr>
          in (Inr tok,
              addTokenToSession (pcSessionId p) tokenId
                (m\<lparr>tokenStorage := AList.update tokenId storageEntry (tokenStorage m)\<rparr>)))"

text \<open>A call that no other call on the manager overlaps: \<open>now'\<close> is the clock when the
  issuer answers.\<close>

definition createToken ::
  "TokenManager \<Rightarrow> int \<Rightarrow> int \<Rightarrow> CreateTokenOptions \<Rightarrow> string \<Rightarrow> string \<Rightarrow> string + string
     \<Rightarrow> (tokenError + EphemeralToken) \<times> TokenManager" where
  "createToken m now now' options generated clientId issued =
     (case createToken_begin m now options generated clientId of
        Inl e \<Rightarrow> (Inl e, m)
      | Inr p \<Rightarrow> createToken_resume m now' p issued)"

subsection \<open>refreshToken, revokeSession\<close>

definition exhaust :: "int \<Rightarrow> TokenStorageEntry \<Rightarrow> TokenStorageEntry" where
  "exhaust now e = e\<lparr>entryToken := (entryToken e)\<lparr>usesRemaining := 0, lastUsed := Some now\<rparr>\<rparr>"

text \<open>The loop \<open>for (const tokenId of sessionTokenIds)\<close> of both functions; the counter
  is \<open>revokedCount\<close>.\<close>

fun markExhausted ::
  "int \<Rightarrow> string list \<Rightarrow> (string \<times> TokenStorageEntry) list \<Rightarrow> nat \<times> (string \<times> TokenStorageEntry) list" where
  "markExhausted now [] st = (0, st)"
| "markExhausted now (tokenId # ids) st =
     (case map_of st tokenId of
        None \<Rightarrow> markExhausted now ids st
      | Some e \<Rightarrow>
          (let (n, st') = markExhausted now ids (AList.update tokenId (exhaust now e) st)
           in (Suc n, st')))"

definition revokeSession :: "TokenManager \<Rightarrow> int \<Rightarrow> string \<Rightarrow> nat \<times> TokenManager" where
  "revokeSession m now sid =
     (let (revokedCount, st) = markExhausted now (sessionTokenIds m sid) (tokenStorage m)
      in (revokedCount, m\<lparr>tokenStorage := st\<rparr>))"

definition refreshToken_begin ::
  "TokenManager \<Rightarrow> int \<Rightarrow> string \<Rightarrow> CreateTokenOptions \<Rightarrow> string \<Rightarrow> string
     \<Rightarrow> (tokenError + PendingCreate) \<times> TokenManager" where
  "refreshToken_begin m now sid options generated clientId =
     (let m1 = m\<lparr>tokenStorage := snd (markExhausted now (sessionTokenIds m sid) (tokenStorage m))\<rparr>
      in (createToken_begin m1 now (options\<lparr>optSessionId := Some sid\<rparr>) generated clientId, m1))"

definition refreshToken_resume ::
  "TokenManager \<Rightarrow> int \<Rightarrow> PendingCreate \<Rightarrow> string + string
     \<Rightarrow> (tokenError + EphemeralToken) \<times> TokenManager" where
  "refreshToken_resume m now p issued =
     (case createToken_resume m now p issued of
        (Inl e, m') \<Rightarrow> (Inl e, m')
      | (Inr newToken, m') \<Rightarrow>
          (let tokenId = generateTokenId (token newToken) in
           case map_of (tokenStorage m') tokenId of
             None \<Rightarrow> (Inr newToken, m')
           | Some e \<Rightarrow>
               (Inr newToken,
                m'\<lparr>tokenStorage := AList.update tokenId (e\<lparr>refreshCount := 1\<rparr>) (tokenStorage m')\<rparr>)))"

text \<open>A \<open>refreshToken\<close> call that no other call on the manager overlaps.\<close>

definition managerRefreshToken ::
  "TokenManager \<Rightarrow> int \<Rightarrow> int \<Rightarrow> string \<Rightarrow> CreateTokenOptions \<Rightarrow> string \<Rightarrow> string \<Rightarrow> string + string
     \<Rightarrow> (tokenError + EphemeralToken) \<times> TokenManager" where
  "managerRefreshToken m now now' sid options generated clientId issued =
     (case refreshToken_begin m now sid options generated clientId of
        (Inl e, m1) \<Rightarrow> (Inl e, m1)
      | (Inr p, m1) \<Rightarrow> refreshToken_resume m1 now' p issued)"

subsection \<open>validateAndUseToken\<close>

record Validation =
  valid :: bool
  validatedToken :: "EphemeralToken option"
  reason :: "string option"

definition validateAndUseToken :: "TokenManager \<Rightarrow> int \<Rightarrow> string \<Rightarrow> Validation \<times> TokenManager" where
  "validateAndUseToken m now tokenString =
     (let tokenId = generateTokenId tokenString in
      case map_of (tokenStorage m) tokenId of
        None \<Rightarrow> (\<lparr>valid = False, validatedToken = None, reason = Some ''Token not found''\<rparr>, m)
      | Some e \<Rightarrow>
          if expiresAt (entryToken e) < now
          then (\<lparr>valid = False, validatedToken = None, reason = Some ''Token expired''\<rparr>, m)
          else if usesRemaining (entryToken e) \<le> 0
          then (\<lparr>valid = False, validatedToken = None, reason = Some ''Token usage exhausted''\<rparr>, m)
          else
            (let tok = (entryToken e)\<lparr>usesRemaining := usesRemaining (entryToken e) - 1,
                                     lastUsed := Some now\<rparr>
             in (\<lparr>valid = True, validatedToken = Some tok, reason = None\<rparr>,
                 m\<lparr>tokenStorage := AList.update tokenId (e\<lparr>entryToken := tok\<rparr>) (tokenStorage m)\<rparr>)))"

subsection \<open>getSessionStatus, cleanup\<close>

record SessionStatus =
  statusSessionId :: string
  statusActiveTokens :: nat
  statusTotalTokens :: nat
  statusLastActivity :: "int option"

definition laterActivity :: "int option \<Rightarrow> EphemeralToken \<Rightarrow> int option" where
  "laterActivity lastActivity t =
     (case lastUsed t of
        None \<Rightarrow> lastActivity
      | Some u \<Rightarrow> (case lastActivity of None \<Rightarrow> Some u | Some a \<Rightarrow> if u > a then Some u else Some a))"

definition getSessionStatus :: "TokenManager \<Rightarrow> int \<Rightarrow> string \<Rightarrow> SessionStatus" where
  "getSessionStatus m now sid =
     (let entries = List.map_filter (map_of (tokenStorage m)) (sessionTokenIds m sid)
      in \<lparr>statusSessionId = sid,
          statusActiveTokens = length (filter (\<lambda>e. tokenActive now (entryToken e)) entries),
          statusTotalTokens = length (sessionTokenIds m sid),
          statusLastActivity = foldl laterActivity None (map entryToken entries)\<rparr>)"

definition shouldCleanup :: "int \<Rightarrow> EphemeralToken \<Rightarrow> bool" where
  "shouldCleanup now t =
     (let expired = expiresAt t < now;
          exhausted = usesRemaining t \<le> 0;
          timeSinceLastUse = (case lastUsed t of Some u \<Rightarrow> now - u | None \<Rightarrow> now - createdAt t)
      in (expired \<or> exhausted) \<and> timeSinceLastUse > 5 * 60 * 1000)"

text \<open>One round of the loop over \<open>tokenStorage.entries()\<close>; the pair carries \<open>cleaned\<close>.\<close>

definition cleanupEntry ::
  "int \<Rightarrow> nat \<times> TokenManager \<Rightarrow> string \<times> TokenStorageEntry \<Rightarrow> nat \<times> TokenManager" where
  "cleanupEntry now acc ie =
     (case acc of (cleaned, m) \<Rightarrow>
       (case ie of (tokenId, e) \<Rightarrow>
         if shouldCleanup now (entryToken e)
         then (Suc cleaned,
               removeTokenFromSession (sessionId (entryToken e)) tokenId
                 (m\<lparr>tokenStorage := AList.delete tokenId (tokenStorage m)\<rparr>))
         else (cleaned, m)))"

record CleanupResult =
  cleaned :: nat
  remaining :: nat

definition cleanup :: "TokenManager \<Rightarrow> int \<Rightarrow> CleanupResult \<times> TokenManager" where
  "cleanup m now =
     (let (n, m') = foldl (cleanupEntry now) (0, m) (tokenStorage m)
      in (\<lparr>cleaned = n, remaining = length (tokenStorage m')\<rparr>, m'))"

section \<open>SecurityMiddleware\<close>

subsection \<open>Data\<close>

record RateLimitConfig =
  windowMs :: int
  maxRequests :: int

record SecurityConfig =
  enableRateLimit :: bool
  rateLimitConfig :: RateLimitConfig
  enableRequestValidation :: bool
  enableAuditLogging :: bool
  allowedOrigins :: "string list option"
  requireHttps :: bool
  maxRequestSizeBytes :: "int option"

record RateLimitEntry =
  count :: int
  windowStart :: int
  blocked :: bool
  lastReset :: int

record AuditMetadata =
  metaEndpoint :: string
  metaProcessingTime :: int
  metaStatusCode :: "nat option"

record AuditLogEntry =
  auditTimestamp :: int
  auditEvent :: string
  auditClientId :: string
  auditIp :: string
  auditUserAgent :: "string option"
  auditRequestPath :: string
  auditSuccess :: bool
  auditError :: "string option"
  auditMetadata :: "AuditMetadata option"

text \<open>
  A \<open>NextRequest\<close>: \<open>headers\<close> is looked up by lower-case name, as \<open>Headers.get\<close>
  does; \<open>pathname\<close> is \<open>new URL(request.url).pathname\<close>.
\<close>

record Request =
  url :: string
  requestMethod :: string
  headers :: "string \<rightharpoonup> string"
  pathname :: string

text \<open>
  A value thrown by a handler: an \<open>Error\<close> with its \<open>message\<close>, or any other value with
  its \<open>String(...)\<close> rendering. \<open>thrownMessage\<close> is
  \<^verbatim>\<open>error instanceof Error ? error.message : String(error)\<close>.
\<close>

datatype thrown = ErrorObject string | OtherValue string

definition thrownMessage :: "thrown \<Rightarrow> string" where
  "thrownMessage x = (case x of ErrorObject message \<Rightarrow> message | OtherValue s \<Rightarrow> s)"

text \<open>The body handed to \<open>NextResponse.json\<close>; an internal error carries in \<open>details\<close> the
  thrown value itself, or nothing.\<close>

datatype ResponseBody =
    ErrorBody "string option"
  | RateLimitBody string int
  | InternalErrorBody string "thrown option"
  | HandlerBody string

record Response =
  httpStatus :: nat
  responseBody :: ResponseBody
  responseHeaders :: "(string \<times> string) list"

record SecurityMiddleware =
  rateLimitStore :: "string \<rightharpoonup> RateLimitEntry"
  auditLogEntries :: "AuditLogEntry list"
  config :: SecurityConfig

text \<open>The defaults of the constructor; \<open>nodeEnv\<close> is \<open>process.env.NODE_ENV\<close>.\<close>

definition defaultRateLimitConfig :: RateLimitConfig where
  "defaultRateLimitConfig = \<lparr>windowMs = 60 * 60 * 1000, maxRequests = 10\<rparr>"

definition defaultSecurityConfig :: "string option \<Rightarrow> SecurityConfig" where
  "defaultSecurityConfig nodeEnv =
     \<lparr>enableRateLimit = True,
      rateLimitConfig = defaultRateLimitConfig,
      enableRequestValidation = True,
      enableAuditLogging = True,
      allowedOrigins = Some [''http://localhost:3000'', ''https://localhost:3000'',
                             ''http://localhost:3001'', ''https://localhost:3001''],
      requireHttps = (nodeEnv = Some ''production''),
      maxRequestSizeBytes = Some (1024 * 10)\<rparr>"

definition newSecurityMiddleware :: "SecurityConfig \<Rightarrow> SecurityMiddleware" where
  "newSecurityMiddleware cfg = \<lparr>rateLimitStore = Map.empty, auditLogEntries = [], config = cfg\<rparr>"

subsection \<open>Numbers and strings of the middleware\<close>

text \<open>\<open>Math.ceil(x / 1000)\<close> on an integer number of milliseconds.\<close>

definition ceilSeconds :: "int \<Rightarrow> int" where
  "ceilSeconds x = - ((- x) div 1000)"

text \<open>\<open>Number.prototype.toString()\<close> on an integer.\<close>

function showNat :: "nat \<Rightarrow> string" where
  "showNat n = (if n < 10 then [digit36 n] else showNat (n div 10) @ [digit36 (n mod 10)])"
  by pat_completeness auto
termination
  by (relation "measure (\<lambda>n. n)") auto

declare showNat.simps [simp del]

definition showInt :: "int \<Rightarrow> string" where
  "showInt i = (if i < 0 then CHR ''-'' # showNat (nat (- i)) else showNat (nat i))"

text \<open>
  \<open>parseInt\<close> without a radix: leading white space is skipped, a sign is read, a prefix
  \<open>0x\<close> selects base 16, and the longest run of digits is the value; \<open>None\<close> is \<open>NaN\<close>.
  The white space of JavaScript among the code units below 256 is TAB, LF, VT, FF, CR,
  SP and NBSP (U+00A0). The result is a Number: an integer that does not fit into 53
  bits is rounded to the nearest double, ties to even, and \<open>2 ^ 1024\<close> stands for
  \<open>Infinity\<close>.
\<close>

definition isWhiteSpace :: "char \<Rightarrow> bool" where
  "isWhiteSpace c = (of_char c \<in> {9, 10, 11, 12, 13, 32, 160 :: nat})"

function droppedBits :: "nat \<Rightarrow> nat" where
  "droppedBits n = (if n < 2 ^ 53 then 0 else Suc (droppedBits (n div 2)))"
  by pat_completeness auto
termination
  by (relation "measure (\<lambda>n. n)") auto

declare droppedBits.simps [simp del]

definition toNumber :: "nat \<Rightarrow> nat" where
  "toNumber n =
     (let e = droppedBits n;
          q = n div 2 ^ e;
          r = n mod 2 ^ e;
          rounded = (if 2 * r > 2 ^ e \<or> (2 * r = 2 ^ e \<and> odd q) then (q + 1) * 2 ^ e
                     else q * 2 ^ e)
      in if rounded \<ge> 2 ^ 1024 then 2 ^ 1024 else rounded)"

definition digitValue :: "char \<Rightarrow> nat" where
  "digitValue c =
     (let n = (of_char c :: nat) in
      if 48 \<le> n \<and> n \<le> 57 then n - 48
      else if 97 \<le> n \<and> n \<le> 122 then n - 87
      else if 65 \<le> n \<and> n \<le> 90 then n - 55
      else 36)"

definition parseInt :: "string \<Rightarrow> int option" where
  "parseInt s =
     (let t = dropWhile isWhiteSpace s;
          negative = (t \<noteq> [] \<and> hd t = CHR ''-'');
          u = (if t \<noteq> [] \<and> (hd t = CHR ''-'' \<or> hd t = CHR ''+'') then tl t else t);
          hex = (startsWith u ''0x'' \<or> startsWith u ''0X'');
          radix = (if hex then 16 else 10 :: nat);
          ds = takeWhile (\<lambda>c. digitValue c < radix) (if hex then drop 2 u else u);
          v = int (toNumber (foldl (\<lambda>acc c. acc * radix + digitValue c) 0 ds))
      in if ds = [] then None else Some (if negative then - v else v))"

text \<open>The operand of \<open>||\<close> and \<open>&&\<close> when it is a string or \<open>null\<close>: empty strings are falsy.\<close>

definition truthy :: "string option \<Rightarrow> bool" where
  "truthy v = (case v of None \<Rightarrow> False | Some s \<Rightarrow> s \<noteq> [])"

definition orElse :: "string option \<Rightarrow> string option \<Rightarrow> string option" where
  "orElse a b = (if truthy a then a else b)"

definition getClientIdentifier :: "Request \<Rightarrow> string" where
  "getClientIdentifier request =
     (let ip = orElse (map_option (takeWhile (\<lambda>c. c \<noteq> CHR '','')) (headers request ''x-forwarded-for''))
                 (orElse (headers request ''x-real-ip'')
                   (orElse (headers request ''x-forwarded-proto'') (Some ''unknown'')));
          userAgent = orElse (headers request ''user-agent'') (Some ''unknown'')
      in (case ip of None \<Rightarrow> [] | Some i \<Rightarrow> i) @ ''_''
           @ simpleHash (case userAgent of None \<Rightarrow> [] | Some u \<Rightarrow> u))"

subsection \<open>validateRequest\<close>

record RequestValidation =
  requestValid :: bool
  rejectReason :: "string option"
  statusCode :: "nat option"

definition rejectRequest :: "string \<Rightarrow> nat \<Rightarrow> RequestValidation" where
  "rejectRequest r code = \<lparr>requestValid = False, rejectReason = Some r, statusCode = Some code\<rparr>"

definition acceptRequest :: RequestValidation where
  "acceptRequest = \<lparr>requestValid = True, rejectReason = None, statusCode = None\<rparr>"

definition originRejected :: "SecurityConfig \<Rightarrow> Request \<Rightarrow> bool" where
  "originRejected cfg request =
     (case allowedOrigins cfg of
        None \<Rightarrow> False
      | Some origins \<Rightarrow>
          length origins > 0 \<and>
          (let origin = headers request ''origin''
           in truthy origin \<and> \<not> (\<exists>x \<in> set origins. Some x = origin)))"

definition tooLarge :: "SecurityConfig \<Rightarrow> Request \<Rightarrow> bool" where
  "tooLarge cfg request =
     (let contentLength = headers request ''content-length'' in
      case contentLength of
        None \<Rightarrow> False
      | Some cl \<Rightarrow>
          (case maxRequestSizeBytes cfg of
             None \<Rightarrow> False
           | Some mx \<Rightarrow>
               cl \<noteq> [] \<and> mx \<noteq> 0 \<and>
               (case parseInt cl of None \<Rightarrow> False | Some sz \<Rightarrow> sz > mx)))"

definition validateRequest :: "SecurityConfig \<Rightarrow> Request \<Rightarrow> RequestValidation" where
  "validateRequest cfg request =
     (if \<not> enableRequestValidation cfg then acceptRequest
      else if requireHttps cfg \<and> \<not> startsWith (url request) ''https://''
              \<and> \<not> includesStr (url request) ''localhost''
      then rejectRequest ''HTTPS required'' 403
      else if originRejected cfg request then rejectRequest ''Invalid origin'' 403
      else if tooLarge cfg request then rejectRequest ''Request too large'' 413
      else if requestMethod request \<notin> set [''GET'', ''POST'']
      then rejectRequest ''Method not allowed'' 405
      else if requestMethod request = ''POST'' \<and>
              (case headers request ''content-type'' of
                 None \<Rightarrow> False
               | Some ct \<Rightarrow> ct \<noteq> [] \<and> \<not> includesStr ct ''application/json'')
      then rejectRequest ''Invalid content type'' 415
      else acceptRequest)"

subsection \<open>checkRateLimit\<close>

record RateLimitResult =
  allowed :: bool
  remainingRequests :: int
  resetTime :: int
  retryAfter :: int

definition checkRateLimit ::
  "SecurityMiddleware \<Rightarrow> int \<Rightarrow> string \<Rightarrow> RateLimitResult \<times> SecurityMiddleware" where
  "checkRateLimit mw now clientId =
     (let w = windowMs (rateLimitConfig (config mw));
          mx = maxRequests (rateLimitConfig (config mw))
      in case rateLimitStore mw clientId of
           None \<Rightarrow>
             (\<lparr>allowed = True, remainingRequests = mx - 1,
               resetTime = ceilSeconds (now + w), retryAfter = 0\<rparr>,
              mw\<lparr>rateLimitStore := (rateLimitStore mw)(clientId \<mapsto>
                   \<lparr>count = 1, windowStart = now, blocked = False, lastReset = now\<rparr>)\<rparr>)
         | Some entry \<Rightarrow>
             if now - windowStart entry \<ge> w
             then (\<lparr>allowed = True, remainingRequests = mx - 1,
                    resetTime = ceilSeconds (now + w), retryAfter = 0\<rparr>,
                   mw\<lparr>rateLimitStore := (rateLimitStore mw)(clientId \<mapsto>
                        entry\<lparr>count := 1, windowStart := now, blocked := False, lastReset := now\<rparr>)\<rparr>)
             else if count entry \<ge> mx
             then (let resetAt = windowStart entry + w
                   in (\<lparr>allowed = False, remainingRequests = 0,
                        resetTime = ceilSeconds resetAt, retryAfter = ceilSeconds (resetAt - now)\<rparr>,
                       mw\<lparr>rateLimitStore := (rateLimitStore mw)(clientId \<mapsto> entry\<lparr>blocked := True\<rparr>)\<rparr>))
             else (\<lparr>allowed = True, remainingRequests = mx - (count entry + 1),
                    resetTime = ceilSeconds (windowStart entry + w), retryAfter = 0\<rparr>,
                   mw\<lparr>rateLimitStore := (rateLimitStore mw)(clientId \<mapsto>
                        entry\<lparr>count := count entry + 1\<rparr>)\<rparr>))"

text \<open>A run of calls, each a client key with the clock at the call, in order.\<close>

fun checkRateLimits :: "SecurityMiddleware \<Rightarrow> (string \<times> int) list \<Rightarrow> SecurityMiddleware" where
  "checkRateLimits mw [] = mw"
| "checkRateLimits mw ((clientId, now) # calls) =
     checkRateLimits (snd (checkRateLimit mw now clientId)) calls"

subsection \<open>auditLog, secureEndpoint\<close>

definition auditLog ::
  "string \<Rightarrow> string \<Rightarrow> Request \<Rightarrow> bool \<Rightarrow> string option \<Rightarrow> AuditMetadata option \<Rightarrow> int
     \<Rightarrow> SecurityMiddleware \<Rightarrow> SecurityMiddleware" where
  "auditLog event clientId request success err metadata now mw =
     (if \<not> enableAuditLogging (config mw) then mw
      else
        (let entry =
               \<lparr>auditTimestamp = now, auditEvent = event, auditClientId = clientId,
                auditIp =
                  (case orElse (map_option (takeWhile (\<lambda>c. c \<noteq> CHR '','')) (headers request ''x-forwarded-for''))
                          (orElse (headers request ''x-real-ip'') (Some ''unknown'')) of
                     None \<Rightarrow> [] | Some i \<Rightarrow> i),
                auditUserAgent = orElse (headers request ''user-agent'') None,
                auditRequestPath = pathname request,
                auditSuccess = success, auditError = err, auditMetadata = metadata\<rparr>;
             entries = auditLogEntries mw @ [entry]
         in mw\<lparr>auditLogEntries :=
                 (if length entries > 1000 then drop (length entries - 1000) entries else entries)\<rparr>))"

text \<open>
  \<open>secureEndpoint\<close>: \<open>nodeEnv\<close> is \<open>process.env.NODE_ENV\<close>; \<open>startTime\<close>, \<open>checkTime\<close>
  and \<open>endTime\<close> are the clock at the start, at the rate-limit check and when the handler
  has settled. The handler's result is \<open>Inr response\<close>, or \<open>Inl value\<close> when it
  throws \<open>value\<close>, which the \<open>catch\<close> turns into a 500.
\<close>

definition rateLimitedResponse :: "SecurityMiddleware \<Rightarrow> RateLimitResult \<Rightarrow> Response" where
  "rateLimitedResponse mw r =
     \<lparr>httpStatus = 429,
      responseBody = RateLimitBody ''Too many requests'' (retryAfter r),
      responseHeaders =
        [(''Retry-After'', showInt (retryAfter r)),
         (''X-RateLimit-Limit'', showInt (maxRequests (rateLimitConfig (config mw)))),
         (''X-RateLimit-Remaining'', ''0''),
         (''X-RateLimit-Reset'', showInt (resetTime r))]\<rparr>"

definition runHandler ::
  "string option \<Rightarrow> SecurityMiddleware \<Rightarrow> int \<Rightarrow> int \<Rightarrow> string \<Rightarrow> Request \<Rightarrow> string
     \<Rightarrow> (Request \<Rightarrow> thrown + Response) \<Rightarrow> Response \<times> SecurityMiddleware" where
  "runHandler nodeEnv mw startTime endTime clientId request endpoint handler =
     (case handler request of
        Inr response \<Rightarrow>
          (response,
           auditLog ''API_REQUEST_SUCCESS'' clientId request True None
             (Some \<lparr>metaEndpoint = endpoint, metaProcessingTime = endTime - startTime,
                    metaStatusCode = Some (httpStatus response)\<rparr>) endTime mw)
      | Inl error \<Rightarrow>
          (\<lparr>httpStatus = 500,
            responseBody = InternalErrorBody ''Internal server error''
              (if nodeEnv = Some ''development'' then Some error else None),
            responseHeaders = []\<rparr>,
           auditLog ''API_REQUEST_ERROR'' clientId request False (Some (thrownMessage error))
             (Some \<lparr>metaEndpoint = endpoint, metaProcessingTime = endTime - startTime,
                    metaStatusCode = None\<rparr>) endTime mw))"

definition secureEndpoint ::
  "string option \<Rightarrow> SecurityMiddleware \<Rightarrow> int \<Rightarrow> int \<Rightarrow> int \<Rightarrow> Request \<Rightarrow> string
     \<Rightarrow> (Request \<Rightarrow> thrown + Response) \<Rightarrow> Response \<times> SecurityMiddleware" where
  "secureEndpoint nodeEnv mw startTime checkTime endTime request endpoint handler =
     (let clientId = getClientIdentifier request;
          validationResult = validateRequest (config mw) request
      in if \<not> requestValid validationResult
         then (\<lparr>httpStatus = (case statusCode validationResult of None \<Rightarrow> 400 | Some c \<Rightarrow> c),
                 responseBody = ErrorBody (rejectReason validationResult),
                 responseHeaders = []\<rparr>,
               auditLog ''SECURITY_VIOLATION'' clientId request False
                 (rejectReason validationResult) None startTime mw)
         else if nodeEnv \<noteq> Some ''development'' \<and> enableRateLimit (config mw)
         then (let (rateLimitResult, mw1) = checkRateLimit mw checkTime clientId
               in if \<not> allowed rateLimitResult
                  then (rateLimitedResponse mw1 rateLimitResult,
                        auditLog ''RATE_LIMIT_EXCEEDED'' clientId request False
                          (Some ''Too many requests'') None checkTime mw1)
                  else runHandler nodeEnv mw1 startTime endTime clientId request endpoint handler)
         else runHandler nodeEnv mw startTime endTime clientId request endpoint handler)"

section \<open>EnhancedGenAILiveClient\<close>

subsection \<open>Data\<close>

text \<open>
  The client runs on one thread; between two \<open>await\<close>s a method runs in one piece.
  The state holds the fields of the class and, beside them, what the run time keeps for
  it: the timers that are armed (\<open>setTimeout\<close> adds one and returns its handle,
  \<open>clearTimeout\<close> removes the one with the handle given, firing removes it too), the
  number of \<open>fetchValidToken\<close> calls started so far (the promise of the \<open>n\<close>-th call is
  named \<open>n\<close>), the session handles closed and the events emitted.
\<close>

datatype connStatus = Connected | Disconnected | Connecting | Reconnecting

datatype timerCallback = RefreshTokenCb | ReconnectCb

record Timer =
  timerHandle :: nat
  timerDelay :: int
  callback :: timerCallback

datatype clientEvent =
    TokenRefreshEvent string int
  | TokenExpiredEvent string
  | ReconnectingEvent nat nat
  | ReconnectedEvent
  | ReconnectFailedEvent string
  | CloseEvent int

record TokenInfo =
  infoToken :: string
  infoExpiresAt :: int
  infoUsesRemaining :: int

record Client =
  status :: connStatus
  session :: "nat option"
  model :: "string option"
  liveConfig :: "string option"
  client :: "string option"
  currentToken :: "string option"
  tokenExpiresAt :: "int option"
  clientSessionId :: string
  autoRefresh :: bool
  refreshThresholdMinutes :: int
  maxRetries :: nat
  retryDelayMs :: int
  refreshTimer :: "nat option"
  reconnectAttempts :: nat
  reconnectTimer :: "nat option"
  pendingTokenRequest :: "nat option"
  timers :: "Timer list"
  nextHandle :: nat
  fetchesStarted :: nat
  closedSessions :: "nat list"
  emitted :: "clientEvent list"

text \<open>The constructor with \<open>DEFAULT_EPHEMERAL_CONFIG\<close>.\<close>

definition newClient :: "string \<Rightarrow> Client" where
  "newClient sid =
     \<lparr>status = Disconnected, session = None, model = None, liveConfig = None, client = None,
      currentToken = None, tokenExpiresAt = None, clientSessionId = sid, autoRefresh = True,
      refreshThresholdMinutes = 5, maxRetries = 3, retryDelayMs = 1000, refreshTimer = None,
      reconnectAttempts = 0, reconnectTimer = None, pendingTokenRequest = None, timers = [],
      nextHandle = 1, fetchesStarted = 0, closedSessions = [], emitted = []\<rparr>"

definition setTimeout :: "timerCallback \<Rightarrow> int \<Rightarrow> Client \<Rightarrow> nat \<times> Client" where
  "setTimeout cb d c =
     (nextHandle c,
      c\<lparr>timers := timers c @ [\<lparr>timerHandle = nextHandle c, timerDelay = d, callback = cb\<rparr>],
        nextHandle := Suc (nextHandle c)\<rparr>)"

definition clearTimeout :: "nat \<Rightarrow> Client \<Rightarrow> Client" where
  "clearTimeout h c = c\<lparr>timers := filter (\<lambda>t. timerHandle t \<noteq> h) (timers c)\<rparr>"

definition emit :: "clientEvent \<Rightarrow> Client \<Rightarrow> Client" where
  "emit ev c = c\<lparr>emitted := emitted c @ [ev]\<rparr>"

subsection \<open>Token refresh scheduling\<close>

definition scheduleTokenRefresh :: "Client \<Rightarrow> int \<Rightarrow> Client" where
  "scheduleTokenRefresh c now =
     (let c1 = (case refreshTimer c of Some h \<Rightarrow> clearTimeout h c | None \<Rightarrow> c) in
      case tokenExpiresAt c1 of
        None \<Rightarrow> c1
      | Some e \<Rightarrow>
          (let timeUntilExpiry = e - now;
               refreshThreshold = refreshThresholdMinutes c1 * 60 * 1000;
               refreshIn = timeUntilExpiry - refreshThreshold
           in if refreshIn > 0
              then (let (h, c2) = setTimeout RefreshTokenCb refreshIn c1
                    in c2\<lparr>refreshTimer := Some h\<rparr>)
              else snd (setTimeout RefreshTokenCb 0 c1)))"

definition isTokenStillValid :: "Client \<Rightarrow> int \<Rightarrow> TokenInfo \<Rightarrow> bool" where
  "isTokenStillValid c now t =
     (infoExpiresAt t - now > refreshThresholdMinutes c * 60 * 1000 \<and> infoUsesRemaining t > 0)"

subsection \<open>Reconnection\<close>

definition shouldRetryConnection :: "Client \<Rightarrow> bool" where
  "shouldRetryConnection c = (reconnectAttempts c < maxRetries c)"

text \<open>\<open>scheduleReconnection\<close> up to the point where the timer is armed; what the timer
  runs is \<open>reconnectTimerFired\<close> below.\<close>

definition scheduleReconnection :: "Client \<Rightarrow> Client" where
  "scheduleReconnection c =
     (if reconnectAttempts c \<ge> maxRetries c
      then emit (ReconnectFailedEvent ''Max reconnection attempts reached'') c
      else
        (let c1 = c\<lparr>reconnectAttempts := Suc (reconnectAttempts c)\<rparr>;
             delay = retryDelayMs c1 * 2 ^ (reconnectAttempts c1 - 1);
             c2 = emit (ReconnectingEvent (reconnectAttempts c1) (maxRetries c1)) c1;
             (h, c3) = setTimeout ReconnectCb delay c2
         in c3\<lparr>reconnectTimer := Some h\<rparr>))"

subsection \<open>getValidToken\<close>

text \<open>
  \<open>getValidToken\<close> before its \<open>await\<close>: the caller gets a promise to wait for, and the
  flag says whether this call started the fetch (and so runs the \<open>finally\<close> when the
  promise has settled) or was handed the promise of a fetch in flight.
\<close>

definition getValidToken_begin :: "Client \<Rightarrow> (nat \<times> bool) \<times> Client" where
  "getValidToken_begin c =
     (case pendingTokenRequest c of
        Some p \<Rightarrow> ((p, False), c)
      | None \<Rightarrow>
          ((fetchesStarted c, True),
           c\<lparr>pendingTokenRequest := Some (fetchesStarted c),
             fetchesStarted := Suc (fetchesStarted c)\<rparr>))"

text \<open>
  \<open>getValidToken\<close> after its \<open>await\<close>. The promise has settled with \<open>Inr token\<close>
  (\<open>None\<close> is \<open>null\<close>) or has been rejected with \<open>Inl message\<close>; the call that started the
  fetch passes the result on through its \<open>finally\<close>.
\<close>

definition getValidToken_settled ::
  "Client \<Rightarrow> bool \<Rightarrow> string + TokenInfo option \<Rightarrow> (string + TokenInfo option) \<times> Client" where
  "getValidToken_settled c started result =
     (result, if started then c\<lparr>pendingTokenRequest := None\<rparr> else c)"

text \<open>\<open>fetchValidToken\<close>: the cached token if it is still valid, else the answer of the
  token endpoint; the flag says whether the endpoint was called.\<close>

datatype tokenResponse = ResponseNotOk nat | ResponseOk TokenInfo | RequestThrows

definition fetchValidToken ::
  "Client \<Rightarrow> int \<Rightarrow> TokenInfo option \<Rightarrow> tokenResponse \<Rightarrow> TokenInfo option \<times> bool" where
  "fetchValidToken c now cachedToken response =
     (let requested = (case response of ResponseOk t \<Rightarrow> Some t | _ \<Rightarrow> None) in
      case cachedToken of
        None \<Rightarrow> (requested, True)
      | Some t \<Rightarrow> if isTokenStillValid c now t then (Some t, False) else (requested, True))"

subsection \<open>connect\<close>

datatype connectStart = ReturnedFalse | AwaitingToken nat bool

definition connect_begin :: "Client \<Rightarrow> string \<Rightarrow> string \<Rightarrow> connectStart \<times> Client" where
  "connect_begin c mdl cfg =
     (if status c = Connected \<or> status c = Connecting then (ReturnedFalse, c)
      else
        (let c1 = c\<lparr>status := Connecting, liveConfig := Some cfg, model := Some mdl,
                   reconnectAttempts := 0\<rparr>;
             ((p, started), c2) = getValidToken_begin c1
         in (AwaitingToken p started, c2)))"

text \<open>The \<open>catch\<close> block of \<open>connect\<close>: \<open>Inr False\<close> is \<open>return false\<close>, \<open>Inl\<close> the
  error thrown on.\<close>

definition connectFailed :: "Client \<Rightarrow> string \<Rightarrow> (string + bool) \<times> Client" where
  "connectFailed c message =
     (let c1 = c\<lparr>status := Disconnected\<rparr> in
      if shouldRetryConnection c1 then (Inr False, scheduleReconnection c1)
      else (Inl message, c1))"

text \<open>
  \<open>connect\<close> from the moment the token promise has settled; \<open>openResult\<close> is what
  \<open>client.live.connect\<close> gives: \<open>Inr handle\<close> or \<open>Inl message\<close> when it throws.
\<close>

definition connect_resume ::
  "Client \<Rightarrow> bool \<Rightarrow> string + TokenInfo option \<Rightarrow> string + nat \<Rightarrow> int
     \<Rightarrow> (string + bool) \<times> Client" where
  "connect_resume c started tokenResult openResult now =
     (let (result, c0) = getValidToken_settled c started tokenResult in
      case result of
        Inl message \<Rightarrow> connectFailed c0 message
      | Inr None \<Rightarrow> connectFailed c0 ''[AUTH_FAILED] Failed to obtain ephemeral token''
      | Inr (Some tok) \<Rightarrow>
          (let c1 = c0\<lparr>client := Some (infoToken tok), currentToken := Some (infoToken tok),
                       tokenExpiresAt := Some (infoExpiresAt tok)\<rparr>
           in case openResult of
                Inl message \<Rightarrow> connectFailed c1 message
              | Inr h \<Rightarrow>
                  (let c2 = c1\<lparr>session := Some h, status := Connected\<rparr>
                   in (Inr True, if autoRefresh c2 then scheduleTokenRefresh c2 now else c2))))"

text \<open>A \<open>connect\<close> call that nothing else overlaps.\<close>

definition connect ::
  "Client \<Rightarrow> string \<Rightarrow> string \<Rightarrow> string + TokenInfo option \<Rightarrow> string + nat \<Rightarrow> int
     \<Rightarrow> (string + bool) \<times> Client" where
  "connect c mdl cfg tokenResult openResult now =
     (case connect_begin c mdl cfg of
        (ReturnedFalse, c') \<Rightarrow> (Inr False, c')
      | (AwaitingToken p started, c') \<Rightarrow> connect_resume c' started tokenResult openResult now)"

subsection \<open>disconnect\<close>

definition disconnect :: "Client \<Rightarrow> bool \<times> Client" where
  "disconnect c =
     (case session c of
        None \<Rightarrow> (False, c)
      | Some h \<Rightarrow>
          (let c1 = (case refreshTimer c of
                       Some t \<Rightarrow> (clearTimeout t c)\<lparr>refreshTimer := None\<rparr>
                     | None \<Rightarrow> c);
               c2 = (case reconnectTimer c1 of
                       Some t \<Rightarrow> (clearTimeout t c1)\<lparr>reconnectTimer := None\<rparr>
                     | None \<Rightarrow> c1)
           in (True,
               c2\<lparr>closedSessions := closedSessions c2 @ [h], session := None,
                  status := Disconnected, client := None, currentToken := None,
                  tokenExpiresAt := None, reconnectAttempts := 0\<rparr>)))"

subsection \<open>refreshToken, callbacks and timers\<close>

text \<open>\<open>refreshToken\<close> once the refresh endpoint has answered: \<open>Some token\<close>, or \<open>None\<close>
  when anything in the \<open>try\<close> block throws.\<close>

definition refreshToken :: "Client \<Rightarrow> TokenInfo option \<Rightarrow> int \<Rightarrow> bool \<times> Client" where
  "refreshToken c answer now =
     (case answer of
        Some newToken \<Rightarrow>
          (let c1 = c\<lparr>currentToken := Some (infoToken newToken),
                      tokenExpiresAt := Some (infoExpiresAt newToken)\<rparr>;
               c2 = emit (TokenRefreshEvent (infoToken newToken) (infoExpiresAt newToken)) c1
           in (True, if autoRefresh c2 then scheduleTokenRefresh c2 now else c2))
      | None \<Rightarrow> (False, scheduleReconnection (emit (TokenExpiredEvent (clientSessionId c)) c)))"

definition onclose :: "Client \<Rightarrow> int \<Rightarrow> Client" where
  "onclose c code =
     (let c1 = emit (CloseEvent code) c in
      if code \<noteq> 1000 \<and> status c1 = Connected then scheduleReconnection c1 else c1)"

text \<open>The callback that \<open>scheduleReconnection\<close> hands to \<open>setTimeout\<close>.\<close>

definition reconnectTimerFired :: "Client \<Rightarrow> string + TokenInfo option \<Rightarrow> string + nat \<Rightarrow> int \<Rightarrow> Client" where
  "reconnectTimerFired c tokenResult openResult now =
     (let c1 = c\<lparr>status := Reconnecting\<rparr> in
      case connect c1 (case model c1 of Some m \<Rightarrow> m | None \<Rightarrow> [])
             (case liveConfig c1 of Some g \<Rightarrow> g | None \<Rightarrow> []) tokenResult openResult now of
        (Inr True, c2) \<Rightarrow> emit ReconnectedEvent (c2\<lparr>reconnectAttempts := 0\<rparr>)
      | (Inr False, c2) \<Rightarrow> scheduleReconnection c2
      | (Inl message, c2) \<Rightarrow> scheduleReconnection c2)"

text \<open>The run time fires the armed timer with handle \<open>h\<close>: a timer fires once.\<close>

definition fireReconnectTimer ::
  "nat \<Rightarrow> Client \<Rightarrow> string + TokenInfo option \<Rightarrow> string + nat \<Rightarrow> int \<Rightarrow> Client" where
  "fireReconnectTimer h c tokenResult openResult now =
     (if \<exists>t \<in> set (timers c). timerHandle t = h \<and> callback t = ReconnectCb
      then reconnectTimerFired (clearTimeout h c) tokenResult openResult now
      else c)"

definition fireRefreshTimer :: "nat \<Rightarrow> Client \<Rightarrow> TokenInfo option \<Rightarrow> int \<Rightarrow> Client" where
  "fireRefreshTimer h c answer now =
     (if \<exists>t \<in> set (timers c). timerHandle t = h \<and> callback t = RefreshTokenCb
      then snd (refreshToken (clearTimeout h c) answer now)
      else c)"

section \<open>Example runs\<close>

text \<open>Concrete states, used to run the definitions above on explicit inputs.\<close>

subsection \<open>Token manager\<close>

definition exampleOptions :: "int \<Rightarrow> CreateTokenOptions" where
  "exampleOptions n =
     \<lparr>optUses = Some n, optExpirationMinutes = None, optSessionId = Some ''s1'', optScope = None\<rparr>"

text \<open>A manager holding one token \<open>t1\<close> for session \<open>s1\<close> with \<open>n\<close> uses, asked for at time 0
  and issued at time 5; it expires at 1 800 000.\<close>

definition exampleManager :: "int \<Rightarrow> TokenManager" where
  "exampleManager n =
     snd (createToken newTokenManager 0 5 (exampleOptions n) ''generated'' ''client'' (Inr ''t1''))"

text \<open>The single use of \<open>t1\<close> is consumed at time 1000.\<close>

definition usedUpManager :: TokenManager where
  "usedUpManager = snd (validateAndUseToken (exampleManager 1) 1000 ''t1'')"

text \<open>
  Several \<open>createToken\<close> calls for one session that overlap: every call runs its first part
  (with the limit check) at time \<open>now\<close>, before the issuer has answered any of them, so
  all of them see the manager \<open>m\<close>; the answers then arrive, last call first.
\<close>

fun overlappingCreates :: "TokenManager \<Rightarrow> int \<Rightarrow> CreateTokenOptions \<Rightarrow> string list \<Rightarrow> TokenManager" where
  "overlappingCreates m now options [] = m"
| "overlappingCreates m now options (name # names) =
     (case createToken_begin m now options ''generated'' ''client'' of
        Inl e \<Rightarrow> m
      | Inr p \<Rightarrow> snd (createToken_resume (overlappingCreates m now options names) (now + 1) p (Inr name)))"

text \<open>
  The quota as an invariant of the manager at time \<open>now\<close>: no session has more valid
  credentials than \<open>maxTokensPerSession\<close>, counted as \<open>enforceSessionTokenLimit\<close> counts them;
  the ids recorded for a session are distinct, as the elements of a \<open>Set\<close> are.
\<close>

definition withinLimit :: "TokenManager \<Rightarrow> int \<Rightarrow> bool" where
  "withinLimit m now =
     (\<forall>s. length (activeTokens m now s) \<le> maxTokensPerSession m \<and> distinct (sessionTokenIds m s))"

subsection \<open>Security middleware\<close>

text \<open>The clock readings of the calls that a run makes for the client key \<open>k\<close>, in order.\<close>

definition timesOf :: "string \<Rightarrow> (string \<times> int) list \<Rightarrow> int list" where
  "timesOf k calls = map snd (filter (\<lambda>c. fst c = k) calls)"

definition exampleClientKey :: string where
  "exampleClientKey = ''203.0.113.7_abc''"

text \<open>The first \<open>n\<close> calls of a run in which a second client calls in between.\<close>

definition exampleCalls :: "nat \<Rightarrow> (string \<times> int) list" where
  "exampleCalls n =
     take n [(exampleClientKey, 0), (exampleClientKey, 1000), (''198.51.100.2_xyz'', 1500),
             (exampleClientKey, 2000), (exampleClientKey, 3000), (exampleClientKey, 4000),
             (exampleClientKey, 5000), (exampleClientKey, 6000), (exampleClientKey, 7000),
             (exampleClientKey, 8000), (exampleClientKey, 9000)]"

definition exampleRequest :: "string option \<Rightarrow> Request" where
  "exampleRequest origin =
     \<lparr>url = ''https://tokens.example.com/api/auth/ephemeral-token'',
      requestMethod = ''POST'',
      headers = (\<lambda>h. if h = ''origin'' then origin
                     else if h = ''content-type'' then Some ''application/json''
                     else if h = ''x-forwarded-for'' then Some ''203.0.113.7, 10.0.0.1''
                     else None),
      pathname = ''/api/auth/ephemeral-token''\<rparr>"

text \<open>Requests served one after the other by one middleware; each pair is the clock and
  the request.\<close>

fun secureEndpoints ::
  "string option \<Rightarrow> SecurityMiddleware \<Rightarrow> (int \<times> Request) list \<Rightarrow> string
     \<Rightarrow> (Request \<Rightarrow> thrown + Response) \<Rightarrow> Response list \<times> SecurityMiddleware" where
  "secureEndpoints nodeEnv mw [] endpoint handler = ([], mw)"
| "secureEndpoints nodeEnv mw ((now, request) # rest) endpoint handler =
     (let (response, mw1) = secureEndpoint nodeEnv mw now now now request endpoint handler;
          (responses, mw2) = secureEndpoints nodeEnv mw1 rest endpoint handler
      in (response # responses, mw2))"

definition okHandler :: "Request \<Rightarrow> thrown + Response" where
  "okHandler request = Inr \<lparr>httpStatus = 200, responseBody = HandlerBody ''{}'', responseHeaders = []\<rparr>"

definition burst :: "(int \<times> Request) list" where
  "burst = map (\<lambda>t. (t, exampleRequest None)) [0, 1, 2, 3, 4, 5, 6, 7, 8, 9, 10, 11]"

text \<open>A middleware whose window for the example request's client is full.\<close>

definition saturatedMiddleware :: SecurityMiddleware where
  "saturatedMiddleware =
     (newSecurityMiddleware (defaultSecurityConfig (Some ''production'')))
       \<lparr>rateLimitStore := [getClientIdentifier (exampleRequest None) \<mapsto>
           \<lparr>count = 10, windowStart = 0, blocked = False, lastReset = 0\<rparr>]\<rparr>"

subsection \<open>Client\<close>

text \<open>A token that expires 30 minutes after time 0.\<close>

definition exampleToken :: TokenInfo where
  "exampleToken = \<lparr>infoToken = ''t1'', infoExpiresAt = 1800000, infoUsesRemaining = 1\<rparr>"

text \<open>A client with the default configuration (\<open>retryDelayMs = 1000\<close>, \<open>maxRetries = 3\<close>),
  connected at time 0 with session handle 7.\<close>

definition connectedClient :: Client where
  "connectedClient =
     snd (connect (newClient ''s1'') ''model'' ''cfg'' (Inr (Some exampleToken)) (Inr 7) 0)"

text \<open>A client whose first \<open>connect\<close> got no token.\<close>

definition neverConnected :: Client where
  "neverConnected = snd (connect (newClient ''s1'') ''model'' ''cfg'' (Inr None) (Inr 7) 0)"

text \<open>
  Consecutive connection failures: the session of \<open>connectedClient\<close> is closed with code
  1006; the reconnect timer armed for it fires at time 1000 and the attempt gets no
  token; the timers armed by that attempt fire at times 2000 and 3000 and their attempts
  get no token either.
\<close>

definition dropped :: Client where
  "dropped = onclose connectedClient 1006"

definition failedTwice :: Client where
  "failedTwice = fireReconnectTimer 2 dropped (Inr None) (Inr 7) 1000"

definition failedThrice :: Client where
  "failedThrice = fireReconnectTimer 3 failedTwice (Inr None) (Inr 7) 2000"

definition failedFourTimes :: Client where
  "failedFourTimes = fireReconnectTimer 4 failedThrice (Inr None) (Inr 7) 3000"

text \<open>\<open>n\<close> calls of \<open>getValidToken\<close> made one after the other before any fetch settles.\<close>

fun getValidTokenCalls :: "nat \<Rightarrow> Client \<Rightarrow> (nat \<times> bool) list \<times> Client" where
  "getValidTokenCalls 0 c = ([], c)"
| "getValidTokenCalls (Suc n) c =
     (let (r, c1) = getValidToken_begin c; (rs, c2) = getValidTokenCalls n c1 in (r # rs, c2))"

text \<open>A client that has just been given the example token and has no timer armed.\<close>

definition freshlyTokened :: Client where
  "freshlyTokened = (newClient ''s1'')\<lparr>currentToken := Some ''t1'', tokenExpiresAt := Some 1800000\<rparr>"

text \<open>
  A token that expires 3 minutes after time 1000, inside the refresh threshold of 5
  minutes, and the connected client after a \<open>refreshToken\<close> call has succeeded with it at
  time 1000.
\<close>

definition shortToken :: TokenInfo where
  "shortToken = \<lparr>infoToken = ''t2'', infoExpiresAt = 181000, infoUsesRemaining = 1\<rparr>"

definition refreshedShort :: Client where
  "refreshedShort = snd (refreshToken connectedClient (Some shortToken) 1000)"

section \<open>Token manager: lemmas\<close>

lemma exhaust_idem: "exhaust now (exhaust now e) = exhaust now e"
  by (simp add: exhaust_def)

lemma markExhausted_lookup:
  "map_of (snd (markExhausted now ids st)) k = Some e' \<Longrightarrow>
     \<exists>e. map_of st k = Some e \<and> (e' = e \<or> e' = exhaust now e)"
proof (induction ids arbitrary: st)
  case Nil
  then show ?case by simp
next
  case (Cons i ids)
  show ?case
  proof (cases "map_of st i")
    case None
    with Cons show ?thesis by simp
  next
    case (Some e0)
    with Cons.prems have "map_of (snd (markExhausted now ids (AList.update i (exhaust now e0) st))) k = Some e'"
      by (simp add: split_beta)
    from Cons.IH [OF this] obtain e1 where
      e1: "map_of (AList.update i (exhaust now e0) st) k = Some e1" "e' = e1 \<or> e' = exhaust now e1"
      by blast
    show ?thesis
    proof (cases "k = i")
      case True
      with e1 Some show ?thesis by (auto simp: update_conv' exhaust_idem)
    next
      case False
      with e1 show ?thesis by (auto simp: update_conv')
    qed
  qed
qed

lemma removeTokenFromSession_storage [simp]:
  "tokenStorage (removeTokenFromSession sid k m) = tokenStorage m"
  by (simp add: removeTokenFromSession_def Let_def split: option.splits)

lemma cleanup_fold_storage:
  "tokenStorage (snd (foldl (cleanupEntry now) (n, m) xs)) =
     filter (\<lambda>ke. \<not> (\<exists>e. (fst ke, e) \<in> set xs \<and> shouldCleanup now (entryToken e))) (tokenStorage m)"
proof (induction xs arbitrary: n m)
  case Nil
  then show ?case by simp
next
  case (Cons x xs)
  obtain k e where x: "x = (k, e)" by (cases x)
  show ?case
  proof (cases "shouldCleanup now (entryToken e)")
    case True
    then show ?thesis
      using Cons.IH [of "Suc n"] x
      by (auto simp: cleanupEntry_def AList.delete_eq intro!: filter_cong)
  next
    case False
    then show ?thesis
      using Cons.IH [of n m] x
      by (auto simp: cleanupEntry_def intro!: filter_cong)
  qed
qed

lemma cleanup_storage:
  "tokenStorage (snd (cleanup m now)) =
     filter (\<lambda>ke. \<not> (\<exists>e. (fst ke, e) \<in> set (tokenStorage m) \<and> shouldCleanup now (entryToken e)))
       (tokenStorage m)"
  by (simp add: cleanup_def split_beta cleanup_fold_storage)

lemma map_of_filter_keys:
  "map_of (filter (\<lambda>ke. P (fst ke)) xs) k = (if P k then map_of xs k else None)"
  by (induction xs) auto

lemma cleanup_lookup:
  "map_of (tokenStorage (snd (cleanup m now))) k =
     (if \<exists>e. (k, e) \<in> set (tokenStorage m) \<and> shouldCleanup now (entryToken e) then None
      else map_of (tokenStorage m) k)"
  unfolding cleanup_storage
  using map_of_filter_keys [of "\<lambda>k. \<not> (\<exists>e. (k, e) \<in> set (tokenStorage m) \<and> shouldCleanup now (entryToken e))" "tokenStorage m" k]
  by auto


lemmas manager_eval =
  exampleOptions_def exampleManager_def createToken_def createToken_begin_def createToken_resume_def
  validateTokenParams_def enforceSessionTokenLimit_def activeTokens_def sessionTokenIds_def
  tokenActive_def addTokenToSession_def setAdd_def newTokenManager_def generateTokenId_def
  simpleHash_def hashString_def hashStep_def toString36.simps digit36_def List.map_filter_def
  validateAndUseToken_def Let_def


section \<open>Token manager: claims\<close>

subsection \<open>Consuming a credential\<close>

lemma validateAndUseToken_cases:
  "(case map_of (tokenStorage m) (generateTokenId tokenString) of
      None \<Rightarrow>
        validateAndUseToken m now tokenString =
          (\<lparr>valid = False, validatedToken = None, reason = Some ''Token not found''\<rparr>, m)
    | Some e \<Rightarrow>
        if expiresAt (entryToken e) < now
        then validateAndUseToken m now tokenString =
               (\<lparr>valid = False, validatedToken = None, reason = Some ''Token expired''\<rparr>, m)
        else if usesRemaining (entryToken e) \<le> 0
        then validateAndUseToken m now tokenString =
               (\<lparr>valid = False, validatedToken = None, reason = Some ''Token usage exhausted''\<rparr>, m)
        else valid (fst (validateAndUseToken m now tokenString)) \<and>
             map_of (tokenStorage (snd (validateAndUseToken m now tokenString)))
                 (generateTokenId tokenString) =
               Some (e\<lparr>entryToken := (entryToken e)\<lparr>usesRemaining := usesRemaining (entryToken e) - 1,
                                                     lastUsed := Some now\<rparr>\<rparr>) \<and>
             (\<forall>k. k \<noteq> generateTokenId tokenString \<longrightarrow>
                  map_of (tokenStorage (snd (validateAndUseToken m now tokenString))) k =
                  map_of (tokenStorage m) k))"
  by (simp add: validateAndUseToken_def Let_def update_conv' split: option.splits)

lemma revokeSession_lookup:
  "map_of (tokenStorage (snd (revokeSession m now sid))) k = Some e' \<Longrightarrow>
     \<exists>e. map_of (tokenStorage m) k = Some e \<and> (e' = e \<or> e' = exhaust now e)"
  using markExhausted_lookup [of now "sessionTokenIds m sid" "tokenStorage m" k e']
  by (simp add: revokeSession_def split_beta)

lemma refreshToken_begin_lookup:
  "map_of (tokenStorage (snd (refreshToken_begin m now sid options generated clientId))) k = Some e' \<Longrightarrow>
     \<exists>e. map_of (tokenStorage m) k = Some e \<and> (e' = e \<or> e' = exhaust now e)"
  using markExhausted_lookup [of now "sessionTokenIds m sid" "tokenStorage m" k e']
  by (simp add: refreshToken_begin_def Let_def)

lemma cleanup_keeps:
  "map_of (tokenStorage (snd (cleanup m now))) k = Some e' \<Longrightarrow> map_of (tokenStorage m) k = Some e'"
  by (simp add: cleanup_lookup split: if_splits)

lemma createToken_resume_frame:
  "k \<noteq> generateTokenId name \<Longrightarrow>
     map_of (tokenStorage (snd (createToken_resume m now p (Inr name)))) k = map_of (tokenStorage m) k"
  by (simp add: createToken_resume_def Let_def addTokenToSession_def update_conv')

text \<open>
  Claim C8. \<open>validateAndUseToken\<close> looks the credential up by the id derived from the token
  string. The checks are made in the order of the code: with no entry under that id the
  answer is invalid with reason \<open>Token not found\<close>; with an entry whose \<open>expiresAt\<close> is
  before \<open>now\<close> it is invalid with reason \<open>Token expired\<close>; with an entry that has not
  expired and has \<open>usesRemaining \<le> 0\<close> it is invalid with reason \<open>Token usage exhausted\<close>.
  In these three cases the manager is returned as it was, so \<open>usesRemaining\<close> and
  \<open>lastUsed\<close> of every stored credential are unchanged. Otherwise the answer is valid,
  the entry's \<open>usesRemaining\<close> is one less, its \<open>lastUsed\<close> is \<open>now\<close>, and every other
  entry is unchanged. No other operation counts usage down: \<open>revokeSession\<close> and the
  first part of \<open>refreshToken\<close> leave an entry as it is or mark it exhausted
  (\<open>usesRemaining = 0\<close>), \<open>cleanup\<close> keeps the entries it does not remove as they are, and
  storing a created token changes the entry under the new token's id only.
\<close>

theorem C8_validateAndUseToken:
  "(case map_of (tokenStorage m) (generateTokenId tokenString) of
      None \<Rightarrow>
        validateAndUseToken m now tokenString =
          (\<lparr>valid = False, validatedToken = None, reason = Some ''Token not found''\<rparr>, m)
    | Some e \<Rightarrow>
        if expiresAt (entryToken e) < now
        then validateAndUseToken m now tokenString =
               (\<lparr>valid = False, validatedToken = None, reason = Some ''Token expired''\<rparr>, m)
        else if usesRemaining (entryToken e) \<le> 0
        then validateAndUseToken m now tokenString =
               (\<lparr>valid = False, validatedToken = None, reason = Some ''Token usage exhausted''\<rparr>, m)
        else valid (fst (validateAndUseToken m now tokenString)) \<and>
             map_of (tokenStorage (snd (validateAndUseToken m now tokenString)))
                 (generateTokenId tokenString) =
               Some (e\<lparr>entryToken := (entryToken e)\<lparr>usesRemaining := usesRemaining (entryToken e) - 1,
                                                     lastUsed := Some now\<rparr>\<rparr>) \<and>
             (\<forall>k. k \<noteq> generateTokenId tokenString \<longrightarrow>
                  map_of (tokenStorage (snd (validateAndUseToken m now tokenString))) k =
                  map_of (tokenStorage m) k))
   \<and> (\<forall>k e'. map_of (tokenStorage (snd (revokeSession m now sid))) k = Some e' \<longrightarrow>
          (\<exists>e. map_of (tokenStorage m) k = Some e \<and> (e' = e \<or> e' = exhaust now e)))
   \<and> (\<forall>k e'. map_of (tokenStorage (snd (refreshToken_begin m now sid options generated clientId))) k = Some e' \<longrightarrow>
          (\<exists>e. map_of (tokenStorage m) k = Some e \<and> (e' = e \<or> e' = exhaust now e)))
   \<and> (\<forall>k e'. map_of (tokenStorage (snd (cleanup m now))) k = Some e' \<longrightarrow>
          map_of (tokenStorage m) k = Some e')
   \<and> (\<forall>k. k \<noteq> generateTokenId name \<longrightarrow>
          map_of (tokenStorage (snd (createToken_resume m now p (Inr name)))) k =
          map_of (tokenStorage m) k)"
  using validateAndUseToken_cases [where m = m and tokenString = tokenString and now = now]
    revokeSession_lookup [where m = m and now = now and sid = sid]
    refreshToken_begin_lookup [where m = m and now = now and sid = sid and options = options
      and generated = generated and clientId = clientId]
    cleanup_keeps [where m = m and now = now]
    createToken_resume_frame [where name = name and m = m and now = now and p = p]
  by blast

text \<open>The example manager, evaluated.\<close>

lemma exampleManager_storage:
  "tokenStorage (exampleManager n) =
    (if 1 \<le> n \<and> n \<le> 5 then
     [(''token_2t9'', \<lparr>entryToken = \<lparr>token = ''t1'', expiresAt = 1800000, usesRemaining = n,
         sessionId = ''s1'', scope = [''gemini-live-api''], createdAt = 5, lastUsed = None\<rparr>,
         refreshCount = 0, issuedFor = ''client''\<rparr>)] else [])"
  by (simp add: manager_eval)

lemma id_t1: "generateTokenId ''t1'' = ''token_2t9''"
  by (simp add: manager_eval)

text \<open>
  C8 at concrete inputs: a stored token with two uses is consumed at time 1000 (one use
  left, \<open>lastUsed = 1000\<close>); an unknown token string is not found; after its expiry the
  stored token is refused as expired, and the manager is unchanged in both refusals.
\<close>

theorem C8_witness:
  "map_of (tokenStorage (exampleManager 2)) (generateTokenId ''t1'') \<noteq> None
   \<and> valid (fst (validateAndUseToken (exampleManager 2) 1000 ''t1''))
   \<and> map_option (\<lambda>e. (usesRemaining (entryToken e), lastUsed (entryToken e)))
        (map_of (tokenStorage (snd (validateAndUseToken (exampleManager 2) 1000 ''t1''))) (generateTokenId ''t1''))
       = Some (1, Some 1000)
   \<and> validateAndUseToken (exampleManager 2) 1000 ''zz'' =
        (\<lparr>valid = False, validatedToken = None, reason = Some ''Token not found''\<rparr>, exampleManager 2)
   \<and> validateAndUseToken (exampleManager 2) 1800001 ''t1'' =
        (\<lparr>valid = False, validatedToken = None, reason = Some ''Token expired''\<rparr>, exampleManager 2)"
  using C8_validateAndUseToken [where m = "exampleManager 2" and tokenString = "''t1''" and now = 1000]
    C8_validateAndUseToken [where m = "exampleManager 2" and tokenString = "''zz''" and now = 1000]
    C8_validateAndUseToken [where m = "exampleManager 2" and tokenString = "''t1''" and now = 1800001]
  by (simp add: exampleManager_storage id_t1 generateTokenId_def simpleHash_def hashString_def hashStep_def toString36.simps digit36_def)


subsection \<open>The cleanup sweep\<close>

lemma map_of_distinct_mem:
  "distinct (map fst xs) \<Longrightarrow> (k, e) \<in> set xs \<Longrightarrow> (k, e') \<in> set xs \<Longrightarrow> e' = e"
  by (metis map_of_is_SomeI option.inject)

text \<open>
  Claim C6, as amended. For every stored credential, \<open>cleanup\<close> removes it exactly when it
  is expired (\<open>expiresAt < now\<close>) or exhausted (\<open>usesRemaining \<le> 0\<close>) and it has been idle
  for more than 5 minutes since its last use (or its creation, if never used); otherwise
  it is retained unchanged. In particular a credential that is expired or exhausted but
  idle for 5 minutes or less is retained, and a still-valid credential is never removed.
  The keys of the storage are distinct, as the keys of a \<open>Map\<close> are.
\<close>

theorem C6_cleanup_removes_idle_invalid:
  assumes "distinct (map fst (tokenStorage m))" and "(k, e) \<in> set (tokenStorage m)"
  shows "map_of (tokenStorage (snd (cleanup m now))) k =
           (if (expiresAt (entryToken e) < now \<or> usesRemaining (entryToken e) \<le> 0) \<and>
               (case lastUsed (entryToken e) of
                  Some u \<Rightarrow> now - u
                | None \<Rightarrow> now - createdAt (entryToken e)) > 5 * 60 * 1000
            then None else Some e)
         \<and> (tokenActive now (entryToken e) \<longrightarrow>
              map_of (tokenStorage (snd (cleanup m now))) k = Some e)"
proof -
  have look: "map_of (tokenStorage m) k = Some e"
    using assms by simp
  have ex: "(\<exists>e'. (k, e') \<in> set (tokenStorage m) \<and> shouldCleanup now (entryToken e'))
              = shouldCleanup now (entryToken e)"
    using assms map_of_distinct_mem [of "tokenStorage m" k e] by blast
  have main: "map_of (tokenStorage (snd (cleanup m now))) k =
                (if shouldCleanup now (entryToken e) then None else Some e)"
    by (simp add: cleanup_lookup ex look)
  have act: "tokenActive now (entryToken e) \<Longrightarrow> \<not> shouldCleanup now (entryToken e)"
    by (auto simp: tokenActive_def shouldCleanup_def Let_def)
  show ?thesis
    using main act by (auto simp: shouldCleanup_def Let_def)
qed

lemma usedUpManager_storage:
  "tokenStorage usedUpManager =
     [(''token_2t9'', \<lparr>entryToken = \<lparr>token = ''t1'', expiresAt = 1800000, usesRemaining = 0,
         sessionId = ''s1'', scope = [''gemini-live-api''], createdAt = 5, lastUsed = Some 1000\<rparr>,
         refreshCount = 0, issuedFor = ''client''\<rparr>)]"
  by (simp add: usedUpManager_def validateAndUseToken_def exampleManager_storage id_t1 Let_def)

text \<open>
  C6 at concrete inputs: the exhausted token, last used at time 1000, is removed by a
  sweep at 301 001 and kept by a sweep at 301 000; a valid token is kept at 900 000.
\<close>

theorem C6_witness:
  "map_of (tokenStorage (snd (cleanup usedUpManager 301001))) (generateTokenId ''t1'') = None
   \<and> map_of (tokenStorage (snd (cleanup usedUpManager 301000))) (generateTokenId ''t1'') =
       map_of (tokenStorage usedUpManager) (generateTokenId ''t1'')
   \<and> map_of (tokenStorage (snd (cleanup (exampleManager 1) 900000))) (generateTokenId ''t1'') =
       map_of (tokenStorage (exampleManager 1)) (generateTokenId ''t1'')
   \<and> map_of (tokenStorage (exampleManager 1)) (generateTokenId ''t1'') \<noteq> None"
  using
    C6_cleanup_removes_idle_invalid [where m = usedUpManager and now = 301001 and k = "generateTokenId ''t1''"
      and e = "snd (hd (tokenStorage usedUpManager))"]
    C6_cleanup_removes_idle_invalid [where m = usedUpManager and now = 301000 and k = "generateTokenId ''t1''"
      and e = "snd (hd (tokenStorage usedUpManager))"]
    C6_cleanup_removes_idle_invalid [where m = "exampleManager 1" and now = 900000 and k = "generateTokenId ''t1''"
      and e = "snd (hd (tokenStorage (exampleManager 1)))"]
  by (simp add: usedUpManager_storage exampleManager_storage id_t1 tokenActive_def)

text \<open>
  The claim as stated (removal when idle for at least 5 minutes) fails on the boundary:
  the token below is exhausted and has been idle for exactly 300 000 ms at time 301 000,
  and the sweep at that time retains it.
\<close>

theorem C6_counterexample:
  "map_of (tokenStorage usedUpManager) (generateTokenId ''t1'') =
     Some \<lparr>entryToken = \<lparr>token = ''t1'', expiresAt = 1800000, usesRemaining = 0,
         sessionId = ''s1'', scope = [''gemini-live-api''], createdAt = 5, lastUsed = Some 1000\<rparr>,
         refreshCount = 0, issuedFor = ''client''\<rparr>
   \<and> (301000 :: int) - 1000 \<ge> 5 * 60 * 1000
   \<and> map_of (tokenStorage (snd (cleanup usedUpManager 301000))) (generateTokenId ''t1'') =
     Some \<lparr>entryToken = \<lparr>token = ''t1'', expiresAt = 1800000, usesRemaining = 0,
         sessionId = ''s1'', scope = [''gemini-live-api''], createdAt = 5, lastUsed = Some 1000\<rparr>,
         refreshCount = 0, issuedFor = ''client''\<rparr>"
  by (simp add: usedUpManager_storage id_t1 cleanup_def cleanupEntry_def shouldCleanup_def)

subsection \<open>The session quota\<close>

text \<open>
  Claim C4 at a failing input. The limit is checked in the first part of \<open>createToken\<close>
  and the token is stored in the second, after the \<open>await\<close> on the issuer. Four calls
  for session \<open>s1\<close> that are started before the issuer has answered any of them all pass
  the check, and once the four answers are stored the session holds four valid
  credentials, one more than \<open>maxTokensPerSession = 3\<close>.
\<close>

theorem C4_overlapping_createToken_exceeds_limit:
  "maxTokensPerSession newTokenManager = 3
   \<and> statusActiveTokens
        (getSessionStatus
          (overlappingCreates newTokenManager 0 (exampleOptions 1) [''t1'', ''t2'', ''t3'', ''t4''])
          1 ''s1'') = 4"
  by (simp add: manager_eval getSessionStatus_def)

text \<open>
  Calls that do not overlap are held to the limit: with three valid credentials stored
  for the session, the first part of a fourth call throws.
\<close>

lemma fourth_createToken_refused:
  "createToken_begin
     (overlappingCreates newTokenManager 0 (exampleOptions 1) [''t1'', ''t2'', ''t3''])
     1 (exampleOptions 1) ''generated'' ''client'' = Inl (SessionLimitReached 3)"
  by (simp add: manager_eval)

text \<open>
  Calls that do not overlap keep the quota. Each of the following lemmas takes a manager
  within the limit to a manager within the limit: the passing of time, consuming a
  credential, revoking a session, the sweep, and a \<open>createToken\<close> or \<open>refreshToken\<close> call
  whose two parts run with no other call in between, provided the id of the token issued
  is not an id recorded for another session (ids are 32-bit hashes of the token strings).
\<close>

lemma active_le:
  assumes "\<And>k e'. k \<in> set ids \<Longrightarrow> P k \<Longrightarrow> f' k = Some e' \<Longrightarrow> A' e' \<Longrightarrow> (\<exists>e. f k = Some e \<and> A e)"
  shows "length (filter A' (List.map_filter f' (filter P ids))) \<le> length (filter A (List.map_filter f ids))"
  using assms
proof (induction ids)
  case Nil
  then show ?case by (simp add: map_filter_simps)
next
  case (Cons i ids)
  have IH: "length (filter A' (List.map_filter f' (filter P ids))) \<le> length (filter A (List.map_filter f ids))"
    using Cons.IH Cons.prems by simp
  show ?case
  proof (cases "P i")
    case False
    with IH show ?thesis
      by (auto simp: map_filter_simps split: option.splits intro: le_SucI)
  next
    case True
    show ?thesis
    proof (cases "f' i")
      case None
      with IH True show ?thesis
        by (auto simp: map_filter_simps split: option.splits intro: le_SucI)
    next
      case (Some e')
      show ?thesis
      proof (cases "A' e'")
        case False
        with IH True Some show ?thesis
          by (auto simp: map_filter_simps split: option.splits intro: le_SucI)
      next
        case A: True
        from Cons.prems [of i e'] True Some A obtain e where "f i = Some e" "A e" by auto
        with IH True Some A show ?thesis
          by (simp add: map_filter_simps)
      qed
    qed
  qed
qed

lemma active_le_same_ids:
  assumes "\<And>k e'. k \<in> set ids \<Longrightarrow> f' k = Some e' \<Longrightarrow> A' e' \<Longrightarrow> (\<exists>e. f k = Some e \<and> A e)"
  shows "length (filter A' (List.map_filter f' ids)) \<le> length (filter A (List.map_filter f ids))"
  using active_le [of ids "\<lambda>_. True" f' A' f A] assms by simp

lemma tokenActive_later: "now \<le> now' \<Longrightarrow> tokenActive now' t \<Longrightarrow> tokenActive now t"
  by (simp add: tokenActive_def)

lemma time_passing_keeps_count:
  "now \<le> now' \<Longrightarrow> length (activeTokens m now' s) \<le> length (activeTokens m now s)"
  unfolding activeTokens_def
  by (rule active_le_same_ids) (auto dest: tokenActive_later)


lemma validateAndUseToken_sessions [simp]:
  "sessionTokens (snd (validateAndUseToken m now ts)) = sessionTokens m"
  "maxTokensPerSession (snd (validateAndUseToken m now ts)) = maxTokensPerSession m"
  by (simp_all add: validateAndUseToken_def Let_def split: option.splits)

lemma validateAndUseToken_lookup:
  "map_of (tokenStorage (snd (validateAndUseToken m now ts))) k = Some e' \<Longrightarrow>
   tokenActive now' (entryToken e') \<Longrightarrow>
   \<exists>e. map_of (tokenStorage m) k = Some e \<and> tokenActive now' (entryToken e)"
  by (auto simp: validateAndUseToken_def Let_def update_conv' tokenActive_def
      split: option.splits if_splits)

lemma validateAndUseToken_keeps_count:
  "length (activeTokens (snd (validateAndUseToken m now ts)) now' s) \<le> length (activeTokens m now' s)"
  unfolding activeTokens_def sessionTokenIds_def validateAndUseToken_sessions
  by (rule active_le_same_ids) (auto dest: validateAndUseToken_lookup)

lemma exhaust_inactive: "\<not> tokenActive now' (entryToken (exhaust now e))"
  by (simp add: exhaust_def tokenActive_def)

lemma revokeSession_sessions [simp]:
  "sessionTokens (snd (revokeSession m now sid)) = sessionTokens m"
  "maxTokensPerSession (snd (revokeSession m now sid)) = maxTokensPerSession m"
  by (simp_all add: revokeSession_def split_beta)

lemma revokeSession_keeps_count:
  "length (activeTokens (snd (revokeSession m now sid)) now' s) \<le> length (activeTokens m now' s)"
  unfolding activeTokens_def sessionTokenIds_def revokeSession_sessions
  by (rule active_le_same_ids) (auto dest!: revokeSession_lookup simp: exhaust_inactive)


lemma sessionTokenIds_remove:
  "sessionTokenIds (removeTokenFromSession s k m) sid =
     (if s = sid then removeAll k (sessionTokenIds m sid) else sessionTokenIds m sid)"
  by (auto simp: removeTokenFromSession_def sessionTokenIds_def Let_def update_conv' delete_conv'
      split: option.splits)

lemma sessionTokenIds_storage_update [simp]:
  "sessionTokenIds (m\<lparr>tokenStorage := st\<rparr>) sid = sessionTokenIds m sid"
  by (simp add: sessionTokenIds_def)

lemma cleanup_fold_ids:
  "sessionTokenIds (snd (foldl (cleanupEntry now) (n, m) xs)) sid =
     filter (\<lambda>k. \<not> (\<exists>e. (k, e) \<in> set xs \<and> shouldCleanup now (entryToken e)
                          \<and> sessionId (entryToken e) = sid))
       (sessionTokenIds m sid)"
proof (induction xs arbitrary: n m)
  case Nil
  then show ?case by simp
next
  case (Cons x xs)
  obtain k e where x: "x = (k, e)" by (cases x)
  show ?case
  proof (cases "shouldCleanup now (entryToken e)")
    case True
    then show ?thesis
      using Cons.IH [of "Suc n"] x
      by (auto simp: cleanupEntry_def sessionTokenIds_remove removeAll_filter_not_eq intro!: filter_cong)
  next
    case False
    then show ?thesis
      using Cons.IH [of n m] x
      by (auto simp: cleanupEntry_def intro!: filter_cong)
  qed
qed

lemma cleanup_fold_max [simp]:
  "maxTokensPerSession (snd (foldl (cleanupEntry now) (n, m) xs)) = maxTokensPerSession m"
proof (induction xs arbitrary: n m)
  case Nil
  then show ?case by simp
next
  case (Cons x xs)
  then show ?case
    by (cases x) (simp add: cleanupEntry_def removeTokenFromSession_def Let_def split: option.splits)
qed

lemma cleanup_max [simp]: "maxTokensPerSession (snd (cleanup m now)) = maxTokensPerSession m"
  by (simp add: cleanup_def split_beta)

lemma cleanup_keeps_count:
  "length (activeTokens (snd (cleanup m now)) now' s) \<le> length (activeTokens m now' s)"
proof -
  have ids: "sessionTokenIds (snd (cleanup m now)) s =
     filter (\<lambda>k. \<not> (\<exists>e. (k, e) \<in> set (tokenStorage m) \<and> shouldCleanup now (entryToken e)
                          \<and> sessionId (entryToken e) = s))
       (sessionTokenIds m s)"
    by (simp add: cleanup_def split_beta cleanup_fold_ids)
  show ?thesis
    unfolding activeTokens_def ids
    by (rule active_le) (auto dest: cleanup_keeps)
qed

lemma cleanup_keeps_distinct:
  "distinct (sessionTokenIds m s) \<Longrightarrow> distinct (sessionTokenIds (snd (cleanup m now)) s)"
  by (simp add: cleanup_def split_beta cleanup_fold_ids)


lemma map_filter_upd_other:
  "k \<notin> set ids \<Longrightarrow> List.map_filter (f(k \<mapsto> v)) ids = List.map_filter f ids"
  by (induction ids) (auto simp: map_filter_simps split: option.splits)

lemma count_update_le_Suc:
  assumes "distinct ids"
  shows "length (filter A (List.map_filter (f(k \<mapsto> v)) ids))
           \<le> Suc (length (filter A (List.map_filter f ids)))"
  using assms
proof (induction ids)
  case Nil
  then show ?case by (simp add: map_filter_simps)
next
  case (Cons i ids)
  show ?case
  proof (cases "i = k")
    case True
    with Cons.prems have "k \<notin> set ids" by simp
    then have eq: "List.map_filter (f(k \<mapsto> v)) ids = List.map_filter f ids"
      by (rule map_filter_upd_other)
    have l: "List.map_filter (f(k \<mapsto> v)) (i # ids) = v # List.map_filter f ids"
      using True by (simp add: map_filter_simps eq)
    have r: "length (filter A (List.map_filter f ids)) \<le> length (filter A (List.map_filter f (i # ids)))"
      by (simp add: map_filter_simps split: option.splits)
    show ?thesis
      unfolding l using r by simp
  next
    case False
    have l: "List.map_filter (f(k \<mapsto> v)) (i # ids) =
               (case f i of None \<Rightarrow> List.map_filter (f(k \<mapsto> v)) ids
                | Some y \<Rightarrow> y # List.map_filter (f(k \<mapsto> v)) ids)"
      using False by (simp add: map_filter_simps)
    have "length (filter A (List.map_filter (f(k \<mapsto> v)) ids))
            \<le> Suc (length (filter A (List.map_filter f ids)))"
    proof (rule Cons.IH)
      show "distinct ids" using Cons.prems by simp
    qed
    then show ?thesis
      unfolding l by (simp add: map_filter_simps split: option.splits)
  qed
qed

lemma count_setAdd_le_Suc:
  assumes "distinct ids"
  shows "length (filter A (List.map_filter (f(k \<mapsto> v)) (setAdd ids k)))
           \<le> Suc (length (filter A (List.map_filter f ids)))"
proof (cases "k \<in> set ids")
  case True
  with assms show ?thesis by (simp add: setAdd_def count_update_le_Suc)
next
  case False
  then have "List.map_filter (f(k \<mapsto> v)) ids = List.map_filter f ids"
    by (rule map_filter_upd_other)
  with False show ?thesis
    by (simp add: setAdd_def List.map_filter_def)
qed

lemma distinct_setAdd: "distinct ids \<Longrightarrow> distinct (setAdd ids k)"
  by (simp add: setAdd_def)

lemma sessionTokenIds_add:
  "sessionTokenIds (addTokenToSession sid k m) s =
     (if s = sid then setAdd (sessionTokenIds m sid) k else sessionTokenIds m s)"
  by (simp add: addTokenToSession_def sessionTokenIds_def update_conv')

lemma createToken_resume_ids:
  "sessionTokenIds (snd (createToken_resume m now p (Inr name))) s =
     (if s = pcSessionId p then setAdd (sessionTokenIds m s) (generateTokenId name)
      else sessionTokenIds m s)"
  by (simp add: createToken_resume_def Let_def sessionTokenIds_add)

lemma createToken_resume_storage:
  "map_of (tokenStorage (snd (createToken_resume m now p (Inr name)))) =
     (map_of (tokenStorage m))(generateTokenId name \<mapsto>
        \<lparr>entryToken = \<lparr>token = name, expiresAt = pcExpiration p, usesRemaining = pcUses p,
                        sessionId = pcSessionId p, scope = pcScope p, createdAt = now,
                        lastUsed = None\<rparr>,
         refreshCount = 0, issuedFor = pcClientId p\<rparr>)"
  by (simp add: createToken_resume_def Let_def addTokenToSession_def update_conv')

lemma createToken_resume_max [simp]:
  "maxTokensPerSession (snd (createToken_resume m now p issued)) = maxTokensPerSession m"
  by (simp add: createToken_resume_def Let_def addTokenToSession_def split: sum.splits)

text \<open>Storing the answer of the issuer raises the count of the call's session by one at
  most, and no other session's count when the new id is not one of theirs.\<close>

lemma createToken_resume_count:
  assumes "distinct (sessionTokenIds m s)"
    and "s \<noteq> pcSessionId p \<longrightarrow> generateTokenId name \<notin> set (sessionTokenIds m s)"
  shows "length (activeTokens (snd (createToken_resume m now p (Inr name))) now' s)
           \<le> (if s = pcSessionId p then Suc (length (activeTokens m now' s))
               else length (activeTokens m now' s))"
proof (cases "s = pcSessionId p")
  case True
  with assms(1) show ?thesis
    unfolding activeTokens_def createToken_resume_ids createToken_resume_storage
    by (simp add: count_setAdd_le_Suc)
next
  case False
  with assms(2) show ?thesis
    unfolding activeTokens_def createToken_resume_ids createToken_resume_storage
    by (simp add: map_filter_upd_other)
qed

lemma createToken_begin_checked:
  "createToken_begin m now options generated clientId = Inr p \<Longrightarrow>
     pcSessionId p = (case optSessionId options of None \<Rightarrow> generated | Some s \<Rightarrow> s) \<and>
     length (activeTokens m now (pcSessionId p)) < maxTokensPerSession m"
  by (auto simp: createToken_begin_def Let_def enforceSessionTokenLimit_def
      split: option.splits if_splits)

lemma createToken_keeps_limit:
  assumes inv: "withinLimit m now" and later: "now \<le> now'"
    and fresh: "\<forall>name s. issued = Inr name \<and>
                 s \<noteq> (case optSessionId options of None \<Rightarrow> generated | Some x \<Rightarrow> x)
                 \<longrightarrow> generateTokenId name \<notin> set (sessionTokenIds m s)"
  shows "withinLimit (snd (createToken m now now' options generated clientId issued)) now'"
proof (cases "createToken_begin m now options generated clientId")
  case (Inl e)
  then have "snd (createToken m now now' options generated clientId issued) = m"
    by (simp add: createToken_def)
  with inv later show ?thesis
    using time_passing_keeps_count [of now now' m]
    by (auto simp: withinLimit_def intro: order_trans)
next
  case (Inr p)
  note chk = createToken_begin_checked [OF Inr]
  show ?thesis
  proof (cases issued)
    case (Inl err)
    with Inr have "snd (createToken m now now' options generated clientId issued) = m"
      by (simp add: createToken_def createToken_resume_def)
    with inv later show ?thesis
      using time_passing_keeps_count [of now now' m]
      by (auto simp: withinLimit_def intro: order_trans)
  next
    case (Inr name)
    have m': "snd (createToken m now now' options generated clientId issued) =
                snd (createToken_resume m now' p (Inr name))"
      using \<open>createToken_begin m now options generated clientId = Inr p\<close> Inr
      by (simp add: createToken_def)
    show ?thesis
      unfolding withinLimit_def m'
    proof (intro allI conjI)
      fix s
      have d: "distinct (sessionTokenIds m s)" using inv by (simp add: withinLimit_def)
      have f: "s \<noteq> pcSessionId p \<longrightarrow> generateTokenId name \<notin> set (sessionTokenIds m s)"
        using fresh Inr chk by auto
      have old: "length (activeTokens m now' s) \<le> length (activeTokens m now s)"
        using later by (rule time_passing_keeps_count)
      have lim: "length (activeTokens m now s) \<le> maxTokensPerSession m"
        using inv by (simp add: withinLimit_def)
      show "length (activeTokens (snd (createToken_resume m now' p (Inr name))) now' s)
              \<le> maxTokensPerSession (snd (createToken_resume m now' p (Inr name)))"
        using createToken_resume_count [OF d f, of now' now'] old lim chk
        by (auto split: if_splits)
      show "distinct (sessionTokenIds (snd (createToken_resume m now' p (Inr name))) s)"
        using inv by (auto simp: withinLimit_def createToken_resume_ids distinct_setAdd)
    qed
  qed
qed


lemma time_passing_keeps_limit:
  "withinLimit m now \<Longrightarrow> now \<le> now' \<Longrightarrow> withinLimit m now'"
  using time_passing_keeps_count [of now now' m]
  by (auto simp: withinLimit_def intro: order_trans)

lemma validateAndUseToken_keeps_limit:
  "withinLimit m now \<Longrightarrow> withinLimit (snd (validateAndUseToken m now ts)) now"
  using validateAndUseToken_keeps_count [of m now ts now]
  by (auto simp: withinLimit_def sessionTokenIds_def intro: order_trans)

lemma revokeSession_keeps_limit:
  "withinLimit m now \<Longrightarrow> withinLimit (snd (revokeSession m now sid)) now"
  using revokeSession_keeps_count [of m now sid now]
  by (auto simp: withinLimit_def sessionTokenIds_def intro: order_trans)

lemma cleanup_keeps_limit:
  "withinLimit m now \<Longrightarrow> withinLimit (snd (cleanup m now)) now"
  using cleanup_keeps_count [of m now now]
  by (auto simp: withinLimit_def cleanup_keeps_distinct intro: order_trans)

lemma refreshToken_begin_state:
  "snd (refreshToken_begin m now sid options generated clientId) = snd (revokeSession m now sid)"
  by (simp add: refreshToken_begin_def revokeSession_def Let_def split_beta)

lemma refreshToken_begin_result:
  "fst (refreshToken_begin m now sid options generated clientId) =
     createToken_begin (snd (revokeSession m now sid)) now (options\<lparr>optSessionId := Some sid\<rparr>)
       generated clientId"
  by (simp add: refreshToken_begin_def revokeSession_def Let_def split_beta)

lemma refreshCount_keeps_count:
  assumes "map_of (tokenStorage m) k = Some e"
  shows "length (activeTokens (m\<lparr>tokenStorage := AList.update k (e\<lparr>refreshCount := 1\<rparr>) (tokenStorage m)\<rparr>) now s)
           \<le> length (activeTokens m now s)"
  unfolding activeTokens_def sessionTokenIds_storage_update
  by (rule active_le_same_ids) (use assms in \<open>auto simp: update_conv' split: if_splits\<close>)

lemma refreshToken_resume_keeps_limit:
  assumes "withinLimit (snd (createToken_resume m now p issued)) now"
  shows "withinLimit (snd (refreshToken_resume m now p issued)) now"
proof (cases "createToken_resume m now p issued")
  case (Pair r m')
  show ?thesis
  proof (cases r)
    case (Inl e)
    with Pair assms show ?thesis by (simp add: refreshToken_resume_def)
  next
    case (Inr newToken)
    show ?thesis
    proof (cases "map_of (tokenStorage m') (generateTokenId (token newToken))")
      case None
      with Pair Inr assms show ?thesis by (simp add: refreshToken_resume_def Let_def)
    next
      case (Some e)
      have w: "withinLimit m' now" using assms Pair by simp
      have "snd (refreshToken_resume m now p issued) =
              m'\<lparr>tokenStorage := AList.update (generateTokenId (token newToken))
                    (e\<lparr>refreshCount := 1\<rparr>) (tokenStorage m')\<rparr>"
        using Pair Inr Some by (simp add: refreshToken_resume_def Let_def)
      then show ?thesis
        using w refreshCount_keeps_count [OF Some, of now]
        by (auto simp: withinLimit_def intro: order_trans)
    qed
  qed
qed

lemma managerRefreshToken_keeps_limit:
  assumes inv: "withinLimit m now" and later: "now \<le> now'"
    and fresh: "\<forall>name s. issued = Inr name \<and> s \<noteq> sid
                 \<longrightarrow> generateTokenId name \<notin> set (sessionTokenIds m s)"
  shows "withinLimit (snd (managerRefreshToken m now now' sid options generated clientId issued)) now'"
proof -
  let ?m1 = "snd (revokeSession m now sid)"
  let ?o = "options\<lparr>optSessionId := Some sid\<rparr>"
  have w1: "withinLimit ?m1 now" using inv by (rule revokeSession_keeps_limit)
  have ids: "sessionTokenIds ?m1 s = sessionTokenIds m s" for s
    by (simp add: sessionTokenIds_def)
  have fresh1: "\<forall>name s. issued = Inr name \<and>
                 s \<noteq> (case optSessionId ?o of None \<Rightarrow> generated | Some x \<Rightarrow> x)
                 \<longrightarrow> generateTokenId name \<notin> set (sessionTokenIds ?m1 s)"
    using fresh by (simp add: ids)
  have c: "withinLimit (snd (createToken ?m1 now now' ?o generated clientId issued)) now'"
    using w1 later fresh1 by (rule createToken_keeps_limit)
  show ?thesis
  proof (cases "createToken_begin ?m1 now ?o generated clientId")
    case (Inl e)
    then have "snd (managerRefreshToken m now now' sid options generated clientId issued) = ?m1"
      using refreshToken_begin_state [of m now sid options generated clientId]
        refreshToken_begin_result [of m now sid options generated clientId]
      by (cases "refreshToken_begin m now sid options generated clientId")
         (simp add: managerRefreshToken_def)
    with w1 later show ?thesis by (simp add: time_passing_keeps_limit)
  next
    case (Inr p)
    then have m': "snd (managerRefreshToken m now now' sid options generated clientId issued) =
                     snd (refreshToken_resume ?m1 now' p issued)"
      using refreshToken_begin_state [of m now sid options generated clientId]
        refreshToken_begin_result [of m now sid options generated clientId]
      by (cases "refreshToken_begin m now sid options generated clientId")
         (simp add: managerRefreshToken_def)
    have "withinLimit (snd (createToken_resume ?m1 now' p issued)) now'"
      using c Inr by (simp add: createToken_def)
    then show ?thesis
      unfolding m' by (rule refreshToken_resume_keeps_limit)
  qed
qed

lemma newTokenManager_withinLimit: "withinLimit newTokenManager now"
  by (simp add: withinLimit_def newTokenManager_def activeTokens_def sessionTokenIds_def
      map_filter_simps)




section \<open>Security middleware: lemmas\<close>

text \<open>\<open>droppedBits\<close> as conditional equations, for evaluation, and \<open>parseInt\<close> on some
  inputs: leading NBSP is white space, and an integer beyond 53 bits is rounded.\<close>

lemma droppedBits_small: "n < 2 ^ 53 \<Longrightarrow> droppedBits n = 0"
  by (simp add: droppedBits.simps)

lemma droppedBits_large: "\<not> n < 2 ^ 53 \<Longrightarrow> droppedBits n = Suc (droppedBits (n div 2))"
  by (subst droppedBits.simps) simp

lemma parseInt_examples:
  "parseInt ''20000'' = Some 20000"
  "parseInt (char_of (160 :: nat) # ''20000'') = Some 20000"
  "parseInt ''  -0x1f'' = Some (- 31)"
  "parseInt ''12abc'' = Some 12"
  "parseInt ''abc'' = None"
  "parseInt ''9007199254740993'' = Some 9007199254740992"
  "parseInt ''9007199254740995'' = Some 9007199254740996"
  by (simp_all add: parseInt_def isWhiteSpace_def startsWith_def digitValue_def toNumber_def
      droppedBits_small droppedBits_large Let_def)

lemma ceilSeconds_pos: "0 < x \<Longrightarrow> 0 < ceilSeconds x"
proof -
  assume "0 < x"
  then have "(- x) div 1000 < 0" by (simp add: div_neg_pos_less0)
  then show ?thesis by (simp add: ceilSeconds_def)
qed

lemma checkRateLimit_config [simp]: "config (snd (checkRateLimit mw now k)) = config mw"
  by (simp add: checkRateLimit_def Let_def split: option.splits)

lemma checkRateLimit_other:
  "k' \<noteq> k \<Longrightarrow> rateLimitStore (snd (checkRateLimit mw now k')) k = rateLimitStore mw k"
  by (simp add: checkRateLimit_def Let_def split: option.splits)

lemma checkRateLimits_config [simp]: "config (checkRateLimits mw calls) = config mw"
  by (induction mw calls rule: checkRateLimits.induct) simp_all

lemma checkRateLimit_in_window:
  assumes "rateLimitStore mw k = Some e" and "now - windowStart e < windowMs (rateLimitConfig (config mw))"
  shows "\<exists>e'. rateLimitStore (snd (checkRateLimit mw now k)) k = Some e' \<and>
               windowStart e' = windowStart e \<and>
               count e' = max (count e) (min (count e + 1) (maxRequests (rateLimitConfig (config mw))))"
  using assms by (auto simp: checkRateLimit_def Let_def)

lemma count_step:
  "0 \<le> n \<Longrightarrow>
     max (max c (min (c + 1) M)) (min (max c (min (c + 1) M) + n) M) = max c (min (c + (1 + n)) (M::int))"
  by (auto simp: max_def min_def)

lemma checkRateLimits_in_window:
  assumes "rateLimitStore mw k = Some e"
    and "\<forall>u \<in> set (timesOf k calls). u - windowStart e < windowMs (rateLimitConfig (config mw))"
  shows "\<exists>e'. rateLimitStore (checkRateLimits mw calls) k = Some e' \<and>
               windowStart e' = windowStart e \<and>
               count e' = max (count e)
                 (min (count e + int (length (timesOf k calls))) (maxRequests (rateLimitConfig (config mw))))"
  using assms
proof (induction mw calls arbitrary: e rule: checkRateLimits.induct)
  case (1 mw)
  then show ?case by (simp add: timesOf_def)
next
  case (2 mw clientId now calls)
  show ?case
  proof (cases "clientId = k")
    case False
    with "2.prems" have "rateLimitStore (snd (checkRateLimit mw now clientId)) k = Some e"
      by (simp add: checkRateLimit_other)
    moreover from False "2.prems" have
      "\<forall>u \<in> set (timesOf k calls). u - windowStart e
          < windowMs (rateLimitConfig (config (snd (checkRateLimit mw now clientId))))"
      by (simp add: timesOf_def)
    ultimately show ?thesis
      using "2.IH" [of e] False by (simp add: timesOf_def)
  next
    case True
    with "2.prems" have inw: "now - windowStart e < windowMs (rateLimitConfig (config mw))"
      by (simp add: timesOf_def)
    from checkRateLimit_in_window [OF "2.prems"(1) inw] obtain e1 where
      e1: "rateLimitStore (snd (checkRateLimit mw now k)) k = Some e1"
          "windowStart e1 = windowStart e"
          "count e1 = max (count e) (min (count e + 1) (maxRequests (rateLimitConfig (config mw))))"
      by blast
    have "\<forall>u \<in> set (timesOf k calls). u - windowStart e1
          < windowMs (rateLimitConfig (config (snd (checkRateLimit mw now k))))"
      using "2.prems"(2) e1(2) True by (simp add: timesOf_def)
    from "2.IH" [of e1] e1(1) this True obtain e' where
      e': "rateLimitStore (checkRateLimits (snd (checkRateLimit mw now k)) calls) k = Some e'"
          "windowStart e' = windowStart e1"
          "count e' = max (count e1)
             (min (count e1 + int (length (timesOf k calls))) (maxRequests (rateLimitConfig (config mw))))"
      by auto
    show ?thesis
      using e' e1 True
        count_step [of "int (length (timesOf k calls))" "count e" "maxRequests (rateLimitConfig (config mw))"]
      by (simp add: timesOf_def)
  qed
qed

lemma checkRateLimit_opens_window:
  assumes "rateLimitStore mw k = None \<or>
           (\<exists>e. rateLimitStore mw k = Some e \<and> now - windowStart e \<ge> windowMs (rateLimitConfig (config mw)))"
  shows "\<exists>e'. rateLimitStore (snd (checkRateLimit mw now k)) k = Some e' \<and>
               windowStart e' = now \<and> count e' = 1"
  using assms by (auto simp: checkRateLimit_def Let_def)

lemma checkRateLimits_skip:
  "timesOf k calls = [] \<Longrightarrow> rateLimitStore (checkRateLimits mw calls) k = rateLimitStore mw k"
proof (induction mw calls rule: checkRateLimits.induct)
  case (1 mw)
  then show ?case by simp
next
  case (2 mw clientId now calls)
  then show ?case
    by (auto simp: timesOf_def checkRateLimit_other split: if_splits)
qed

lemma checkRateLimits_window:
  assumes "rateLimitStore mw k = None \<or>
           (\<exists>e. rateLimitStore mw k = Some e \<and> t1 - windowStart e \<ge> windowMs (rateLimitConfig (config mw)))"
    and "timesOf k calls = t1 # ts"
    and "\<forall>u \<in> set ts. u - t1 < windowMs (rateLimitConfig (config mw))"
  shows "\<exists>e'. rateLimitStore (checkRateLimits mw calls) k = Some e' \<and>
               windowStart e' = t1 \<and>
               count e' = max 1 (min (1 + int (length ts)) (maxRequests (rateLimitConfig (config mw))))"
  using assms
proof (induction mw calls rule: checkRateLimits.induct)
  case (1 mw)
  then show ?case by (simp add: timesOf_def)
next
  case (2 mw clientId now calls)
  show ?case
  proof (cases "clientId = k")
    case False
    then have "rateLimitStore (snd (checkRateLimit mw now clientId)) k = rateLimitStore mw k"
      by (simp add: checkRateLimit_other)
    with "2.IH" "2.prems" False show ?thesis
      by (simp add: timesOf_def)
  next
    case True
    with "2.prems"(2) have now: "now = t1" and rest: "timesOf k calls = ts"
      by (simp_all add: timesOf_def)
    from checkRateLimit_opens_window [of mw k now] "2.prems"(1) now obtain e1 where
      e1: "rateLimitStore (snd (checkRateLimit mw now k)) k = Some e1" "windowStart e1 = t1" "count e1 = 1"
      by auto
    have "\<forall>u \<in> set (timesOf k calls). u - windowStart e1
            < windowMs (rateLimitConfig (config (snd (checkRateLimit mw now k))))"
      using "2.prems"(3) rest e1(2) by simp
    from checkRateLimits_in_window [OF e1(1) this] show ?thesis
      using True rest e1 by auto
  qed
qed


section \<open>Security middleware: claims\<close>

subsection \<open>The rate limit at the boundary\<close>

text \<open>
  Claim C5. The limiter has its default configuration: at most 10 requests in a window
  of 60 minutes. In any run of calls (other clients may call in between), let the calls
  of client key \<open>k\<close> be made at the times \<open>opened # ts\<close>, where the first of them opens a
  window (\<open>k\<close> has no entry, or its window has run out) and the others fall within 60
  minutes of it. Then the next call of \<open>k\<close>, at time \<open>now\<close>:
  \<^item> if it is the 10th of the window and within it, is allowed with \<open>remaining = 0\<close>;
  \<^item> if it is the 11th (or a later one) and within the window, is refused with
    \<open>retryAfter > 0\<close>;
  \<^item> if it is made at or after \<open>windowStart + windowMs\<close>, is allowed with
    \<open>remaining = maxRequests - 1\<close> and starts a new window at \<open>now\<close> with count 1.
\<close>

theorem C5_rate_limit_boundary:
  assumes "rateLimitConfig (config mw) = defaultRateLimitConfig"
    and "rateLimitStore mw k = None \<or>
         (\<exists>e. rateLimitStore mw k = Some e \<and> opened - windowStart e \<ge> 60 * 60 * 1000)"
    and "timesOf k calls = opened # ts"
    and "\<forall>u \<in> set ts. u - opened < 60 * 60 * 1000"
  shows "(length ts = 8 \<and> now - opened < 60 * 60 * 1000 \<longrightarrow>
            allowed (fst (checkRateLimit (checkRateLimits mw calls) now k)) \<and>
            remainingRequests (fst (checkRateLimit (checkRateLimits mw calls) now k)) = 0)
       \<and> (length ts \<ge> 9 \<and> now - opened < 60 * 60 * 1000 \<longrightarrow>
            \<not> allowed (fst (checkRateLimit (checkRateLimits mw calls) now k)) \<and>
            retryAfter (fst (checkRateLimit (checkRateLimits mw calls) now k)) > 0)
       \<and> (now - opened \<ge> 60 * 60 * 1000 \<longrightarrow>
            allowed (fst (checkRateLimit (checkRateLimits mw calls) now k)) \<and>
            remainingRequests (fst (checkRateLimit (checkRateLimits mw calls) now k)) = 10 - 1 \<and>
            map_option (\<lambda>e. (count e, windowStart e))
              (rateLimitStore (snd (checkRateLimit (checkRateLimits mw calls) now k)) k) = Some (1, now))"
proof -
  have w: "windowMs (rateLimitConfig (config mw)) = 60 * 60 * 1000"
    and m: "maxRequests (rateLimitConfig (config mw)) = 10"
    using assms(1) by (simp_all add: defaultRateLimitConfig_def)
  from checkRateLimits_window [of mw k opened calls ts] assms(2-4) w m obtain e where
    e: "rateLimitStore (checkRateLimits mw calls) k = Some e" "windowStart e = opened"
       "count e = max 1 (min (1 + int (length ts)) 10)"
    by auto
  have c9: "length ts = 8 \<Longrightarrow> count e = 9" using e(3) by simp
  have c10: "length ts \<ge> 9 \<Longrightarrow> count e = 10" using e(3) by simp
  have pos: "now - opened < 60 * 60 * 1000 \<Longrightarrow> 0 < ceilSeconds (opened + 60 * 60 * 1000 - now)"
    by (rule ceilSeconds_pos) simp
  show ?thesis
    using e(1,2) c9 c10 pos w m
    by (auto simp: checkRateLimit_def Let_def)
qed

lemma exampleCalls_times:
  "timesOf exampleClientKey (exampleCalls 10) = [0, 1000, 2000, 3000, 4000, 5000, 6000, 7000, 8000]"
  "timesOf exampleClientKey (exampleCalls 11) = [0, 1000, 2000, 3000, 4000, 5000, 6000, 7000, 8000, 9000]"
  by (simp_all add: timesOf_def exampleCalls_def exampleClientKey_def)

text \<open>
  C5 at concrete inputs: ten and eleven calls of one client, one second apart, with a call
  of another client in between; then the call at the end of the window.
\<close>

theorem C5_witness:
  "allowed (fst (checkRateLimit
      (checkRateLimits (newSecurityMiddleware (defaultSecurityConfig None)) (exampleCalls 10)) 9000 exampleClientKey))
   \<and> remainingRequests (fst (checkRateLimit
      (checkRateLimits (newSecurityMiddleware (defaultSecurityConfig None)) (exampleCalls 10)) 9000 exampleClientKey)) = 0
   \<and> \<not> allowed (fst (checkRateLimit
      (checkRateLimits (newSecurityMiddleware (defaultSecurityConfig None)) (exampleCalls 11)) 10000 exampleClientKey))
   \<and> retryAfter (fst (checkRateLimit
      (checkRateLimits (newSecurityMiddleware (defaultSecurityConfig None)) (exampleCalls 11)) 10000 exampleClientKey)) > 0
   \<and> allowed (fst (checkRateLimit
      (checkRateLimits (newSecurityMiddleware (defaultSecurityConfig None)) (exampleCalls 11)) 3600000 exampleClientKey))
   \<and> remainingRequests (fst (checkRateLimit
      (checkRateLimits (newSecurityMiddleware (defaultSecurityConfig None)) (exampleCalls 11)) 3600000 exampleClientKey)) = 9"
  using
    C5_rate_limit_boundary [where mw = "newSecurityMiddleware (defaultSecurityConfig None)"
      and k = exampleClientKey and calls = "exampleCalls 10" and now = 9000 and opened = 0
      and ts = "[1000, 2000, 3000, 4000, 5000, 6000, 7000, 8000]"]
    C5_rate_limit_boundary [where mw = "newSecurityMiddleware (defaultSecurityConfig None)"
      and k = exampleClientKey and calls = "exampleCalls 11" and now = 10000 and opened = 0
      and ts = "[1000, 2000, 3000, 4000, 5000, 6000, 7000, 8000, 9000]"]
    C5_rate_limit_boundary [where mw = "newSecurityMiddleware (defaultSecurityConfig None)"
      and k = exampleClientKey and calls = "exampleCalls 11" and now = 3600000 and opened = 0
      and ts = "[1000, 2000, 3000, 4000, 5000, 6000, 7000, 8000, 9000]"]
  by (simp add: exampleCalls_times newSecurityMiddleware_def defaultSecurityConfig_def)

subsection \<open>Requests without an Origin header\<close>

lemma originRejected_no_origin:
  "headers request ''origin'' = None \<Longrightarrow> \<not> originRejected cfg request"
  by (simp add: originRejected_def truthy_def split: option.splits)

text \<open>
  Claim C9. For a request with no \<open>Origin\<close> header, \<open>validateRequest\<close> never rejects with
  \<open>Invalid origin\<close>, whatever the configuration: its answer is the one it gives with no
  allow-list configured at all.
\<close>

theorem C9_no_origin_header_passes_origin_check:
  assumes "headers request ''origin'' = None"
  shows "rejectReason (validateRequest cfg request) \<noteq> Some ''Invalid origin''
       \<and> validateRequest cfg request = validateRequest (cfg\<lparr>allowedOrigins := None\<rparr>) request"
proof -
  have no: "\<not> originRejected cfg request"
    using assms by (rule originRejected_no_origin)
  have no': "\<not> originRejected (cfg\<lparr>allowedOrigins := None\<rparr>) request"
    by (simp add: originRejected_def)
  have same: "tooLarge (cfg\<lparr>allowedOrigins := None\<rparr>) request = tooLarge cfg request"
    by (simp add: tooLarge_def split: option.splits)
  show ?thesis
    using no no' same
    by (simp add: validateRequest_def rejectRequest_def acceptRequest_def)
qed

lemma exampleRequest_plain:
  "validateRequest (defaultSecurityConfig (Some ''production'')) (exampleRequest None) = acceptRequest"
  by (simp add: validateRequest_def defaultSecurityConfig_def exampleRequest_def originRejected_def
      tooLarge_def truthy_def startsWith_def)

text \<open>C9 at a concrete input: a POST without an \<open>Origin\<close> header under the production
  defaults is accepted.\<close>

theorem C9_witness:
  "headers (exampleRequest None) ''origin'' = None
   \<and> rejectReason (validateRequest (defaultSecurityConfig (Some ''production'')) (exampleRequest None))
       \<noteq> Some ''Invalid origin''
   \<and> requestValid (validateRequest (defaultSecurityConfig (Some ''production'')) (exampleRequest None))"
  using C9_no_origin_header_passes_origin_check
    [where request = "exampleRequest None" and cfg = "defaultSecurityConfig (Some ''production'')"]
  by (simp add: exampleRequest_plain acceptRequest_def) (simp add: exampleRequest_def)

text \<open>The allow-list does apply when the header is present.\<close>

lemma foreign_origin_rejected:
  "validateRequest (defaultSecurityConfig (Some ''production'')) (exampleRequest (Some ''https://evil.example''))
     = rejectRequest ''Invalid origin'' 403"
  by (simp add: validateRequest_def defaultSecurityConfig_def exampleRequest_def originRejected_def
      tooLarge_def truthy_def startsWith_def)


subsection \<open>Rate limiting in development\<close>

lemma auditLog_keeps [simp]:
  "rateLimitStore (auditLog ev cid rq ok er md t mw) = rateLimitStore mw"
  "config (auditLog ev cid rq ok er md t mw) = config mw"
  by (simp_all add: auditLog_def Let_def)

lemma runHandler_keeps [simp]:
  "rateLimitStore (snd (runHandler nodeEnv mw s e cid rq ep handler)) = rateLimitStore mw"
  "config (snd (runHandler nodeEnv mw s e cid rq ep handler)) = config mw"
  by (simp_all add: runHandler_def split: sum.splits)

lemma runHandler_429:
  "httpStatus (fst (runHandler nodeEnv mw s e cid rq ep handler)) = 429 \<Longrightarrow>
     handler rq = Inr (fst (runHandler nodeEnv mw s e cid rq ep handler))"
  by (simp add: runHandler_def split: sum.splits)

lemma validateRequest_status:
  "\<not> requestValid (validateRequest cfg rq) \<Longrightarrow>
     statusCode (validateRequest cfg rq) \<in> {Some 403, Some 413, Some 405, Some 415}"
  by (simp add: validateRequest_def rejectRequest_def acceptRequest_def split: if_splits)

lemma secureEndpoint_config [simp]:
  "config (snd (secureEndpoint nodeEnv mw s c e rq ep handler)) = config mw"
  by (simp add: secureEndpoint_def Let_def split_beta)

lemma secureEndpoint_unlimited:
  assumes "nodeEnv = Some ''development'' \<or> \<not> enableRateLimit (config mw)"
  shows "rateLimitStore (snd (secureEndpoint nodeEnv mw s c e rq ep handler)) = rateLimitStore mw"
    and "httpStatus (fst (secureEndpoint nodeEnv mw s c e rq ep handler)) = 429 \<Longrightarrow>
           handler rq = Inr (fst (secureEndpoint nodeEnv mw s c e rq ep handler))"
proof -
  show "rateLimitStore (snd (secureEndpoint nodeEnv mw s c e rq ep handler)) = rateLimitStore mw"
    using assms by (auto simp: secureEndpoint_def Let_def)
  assume st: "httpStatus (fst (secureEndpoint nodeEnv mw s c e rq ep handler)) = 429"
  show "handler rq = Inr (fst (secureEndpoint nodeEnv mw s c e rq ep handler))"
  proof (cases "requestValid (validateRequest (config mw) rq)")
    case True
    with assms st show ?thesis
      by (auto simp: secureEndpoint_def Let_def dest: runHandler_429)
  next
    case False
    from validateRequest_status [OF this] False st assms show ?thesis
      by (auto simp: secureEndpoint_def Let_def)
  qed
qed

lemma runHandler_store_unread:
  "fst (runHandler nodeEnv (mw\<lparr>rateLimitStore := other\<rparr>) s e cid rq ep handler) =
   fst (runHandler nodeEnv mw s e cid rq ep handler)"
  by (simp add: runHandler_def split: sum.splits)

lemma secureEndpoint_store_unread:
  assumes "nodeEnv = Some ''development'' \<or> \<not> enableRateLimit (config mw)"
  shows "fst (secureEndpoint nodeEnv (mw\<lparr>rateLimitStore := other\<rparr>) s c e rq ep handler) =
         fst (secureEndpoint nodeEnv mw s c e rq ep handler)"
  using assms by (auto simp: secureEndpoint_def Let_def runHandler_store_unread)

lemma secureEndpoints_unlimited:
  assumes "nodeEnv = Some ''development'' \<or> \<not> enableRateLimit (config mw)"
  shows "rateLimitStore (snd (secureEndpoints nodeEnv mw requests ep handler)) = rateLimitStore mw
       \<and> config (snd (secureEndpoints nodeEnv mw requests ep handler)) = config mw
       \<and> (\<forall>r \<in> set (fst (secureEndpoints nodeEnv mw requests ep handler)).
            httpStatus r = 429 \<longrightarrow> (\<exists>q \<in> set requests. handler (snd q) = Inr r))"
  using assms
proof (induction requests arbitrary: mw)
  case Nil
  then show ?case by simp
next
  case (Cons x requests)
  obtain now rq where x: "x = (now, rq)" by (cases x)
  let ?one = "secureEndpoint nodeEnv mw now now now rq ep handler"
  have one: "rateLimitStore (snd ?one) = rateLimitStore mw"
    "httpStatus (fst ?one) = 429 \<Longrightarrow> handler rq = Inr (fst ?one)"
    using secureEndpoint_unlimited [OF Cons.prems] by blast+
  have "nodeEnv = Some ''development'' \<or> \<not> enableRateLimit (config (snd ?one))"
    using Cons.prems by simp
  from Cons.IH [OF this] one x show ?case
    by (auto simp: split_beta Let_def)
qed

text \<open>
  Claim C10. When \<open>NODE_ENV\<close> is \<open>development\<close> (or when \<open>enableRateLimit\<close> is off),
  \<open>secureEndpoint\<close> leaves the rate-limit store as it was, gives the same response
  whatever the store holds, and answers 429 only if the wrapped handler itself returned
  that response; the same holds for any number of requests served one after the other. So the rate-limit branch is taken only when
  \<open>NODE_ENV\<close> is not \<open>development\<close> and \<open>enableRateLimit\<close> is on.
\<close>

theorem C10_development_skips_rate_limit:
  assumes "nodeEnv = Some ''development'' \<or> \<not> enableRateLimit (config mw)"
  shows "rateLimitStore (snd (secureEndpoint nodeEnv mw startTime checkTime endTime request endpoint handler))
           = rateLimitStore mw
       \<and> fst (secureEndpoint nodeEnv (mw\<lparr>rateLimitStore := other\<rparr>) startTime checkTime endTime
                request endpoint handler)
           = fst (secureEndpoint nodeEnv mw startTime checkTime endTime request endpoint handler)
       \<and> (httpStatus (fst (secureEndpoint nodeEnv mw startTime checkTime endTime request endpoint handler)) = 429
            \<longrightarrow> handler request =
                   Inr (fst (secureEndpoint nodeEnv mw startTime checkTime endTime request endpoint handler)))
       \<and> rateLimitStore (snd (secureEndpoints nodeEnv mw requests endpoint handler)) = rateLimitStore mw
       \<and> (\<forall>r \<in> set (fst (secureEndpoints nodeEnv mw requests endpoint handler)).
            httpStatus r = 429 \<longrightarrow> (\<exists>q \<in> set requests. handler (snd q) = Inr r))"
  using secureEndpoint_unlimited [OF assms, of startTime checkTime endTime request endpoint handler]
    secureEndpoints_unlimited [OF assms, of requests endpoint handler]
    secureEndpoint_store_unread [OF assms, of other startTime checkTime endTime request endpoint handler]
  by blast

text \<open>C10 at a concrete input: twelve requests of one client in development, with a
  handler that answers 200.\<close>

theorem C10_witness:
  "rateLimitStore (snd (secureEndpoints (Some ''development'')
      (newSecurityMiddleware (defaultSecurityConfig (Some ''development''))) burst ''ephemeral-token'' okHandler))
     = Map.empty
   \<and> 429 \<notin> httpStatus ` set (fst (secureEndpoints (Some ''development'')
      (newSecurityMiddleware (defaultSecurityConfig (Some ''development''))) burst ''ephemeral-token'' okHandler))"
proof -
  note c10 = C10_development_skips_rate_limit
    [OF disjI1 [OF refl], where mw = "newSecurityMiddleware (defaultSecurityConfig (Some ''development''))"
       and requests = burst and endpoint = "''ephemeral-token''" and handler = okHandler
       and startTime = 0 and checkTime = 0 and endTime = 0 and request = "exampleRequest None"
       and other = Map.empty]
  have store: "rateLimitStore (snd (secureEndpoints (Some ''development'')
      (newSecurityMiddleware (defaultSecurityConfig (Some ''development''))) burst ''ephemeral-token'' okHandler))
     = Map.empty"
    using c10 [THEN conjunct2, THEN conjunct2, THEN conjunct2, THEN conjunct1] by (simp add: newSecurityMiddleware_def)
  have "httpStatus r \<noteq> 429"
    if "r \<in> set (fst (secureEndpoints (Some ''development'')
      (newSecurityMiddleware (defaultSecurityConfig (Some ''development''))) burst ''ephemeral-token'' okHandler))"
    for r
  proof
    assume "httpStatus r = 429"
    from c10 [THEN conjunct2, THEN conjunct2, THEN conjunct2, THEN conjunct2, rule_format, OF that this]
    have "httpStatus r = 200" by (auto simp: okHandler_def)
    with \<open>httpStatus r = 429\<close> show False by simp
  qed
  with store show ?thesis by auto
qed

text \<open>Outside development the branch is taken: with the client's window full, the
  request is answered 429.\<close>

lemma production_rate_limited:
  "httpStatus (fst (secureEndpoint (Some ''production'') saturatedMiddleware 5000 5000 5000
      (exampleRequest None) ''ephemeral-token'' okHandler)) = 429"
  by (simp add: secureEndpoint_def saturatedMiddleware_def exampleRequest_plain acceptRequest_def
      newSecurityMiddleware_def Let_def)
     (simp add: defaultSecurityConfig_def defaultRateLimitConfig_def
      checkRateLimit_def rateLimitedResponse_def Let_def)

section \<open>Client: lemmas\<close>

lemmas client_eval =
  connect_def connect_begin_def connect_resume_def connectFailed_def getValidToken_begin_def
  getValidToken_settled_def scheduleTokenRefresh_def scheduleReconnection_def setTimeout_def
  clearTimeout_def emit_def shouldRetryConnection_def newClient_def onclose_def
  reconnectTimerFired_def fireReconnectTimer_def exampleToken_def Let_def


text \<open>The example states, evaluated.\<close>

lemma connectedClient_eq:
  "connectedClient =
    \<lparr>status = Connected, session = Some 7, model = Some ''model'',
      liveConfig = Some ''cfg'', client = Some ''t1'',
      currentToken = Some ''t1'', tokenExpiresAt = Some 1800000,
      clientSessionId = ''s1'', autoRefresh = True,
      refreshThresholdMinutes = 5, maxRetries = 3, retryDelayMs = 1000,
      refreshTimer = Some 1, reconnectAttempts = 0, reconnectTimer = None,
      pendingTokenRequest = None,
      timers = [\<lparr>timerHandle = 1, timerDelay = 1500000, callback = RefreshTokenCb\<rparr>],
      nextHandle = 2, fetchesStarted = 1, closedSessions = [], emitted = []\<rparr>"
  by (simp add: connectedClient_def client_eval)

lemma neverConnected_eq:
  "neverConnected =
    \<lparr>status = Disconnected, session = None, model = Some ''model'',
      liveConfig = Some ''cfg'', client = None, currentToken = None,
      tokenExpiresAt = None, clientSessionId = ''s1'', autoRefresh = True,
      refreshThresholdMinutes = 5, maxRetries = 3, retryDelayMs = 1000,
      refreshTimer = None, reconnectAttempts = 1, reconnectTimer = Some 1,
      pendingTokenRequest = None,
      timers = [\<lparr>timerHandle = 1, timerDelay = 1000, callback = ReconnectCb\<rparr>],
      nextHandle = 2, fetchesStarted = 1, closedSessions = [],
      emitted = [ReconnectingEvent 1 3]\<rparr>"
  by (simp add: neverConnected_def client_eval)

lemma dropped_eq:
  "dropped = connectedClient
     \<lparr>reconnectAttempts := 1, reconnectTimer := Some 2,
      timers := [\<lparr>timerHandle = 1, timerDelay = 1500000, callback = RefreshTokenCb\<rparr>,
                 \<lparr>timerHandle = 2, timerDelay = 1000, callback = ReconnectCb\<rparr>],
      nextHandle := 3, emitted := [CloseEvent 1006, ReconnectingEvent 1 3]\<rparr>"
  by (simp add: dropped_def connectedClient_eq client_eval)

lemma failedTwice_eq:
  "failedTwice = connectedClient
     \<lparr>status := Disconnected, reconnectAttempts := 2, reconnectTimer := Some 4,
      timers := [\<lparr>timerHandle = 1, timerDelay = 1500000, callback = RefreshTokenCb\<rparr>,
                 \<lparr>timerHandle = 3, timerDelay = 1000, callback = ReconnectCb\<rparr>,
                 \<lparr>timerHandle = 4, timerDelay = 2000, callback = ReconnectCb\<rparr>],
      nextHandle := 5, fetchesStarted := 2,
      emitted := [CloseEvent 1006, ReconnectingEvent 1 3, ReconnectingEvent 1 3,
                  ReconnectingEvent 2 3]\<rparr>"
  by (simp add: failedTwice_def dropped_eq connectedClient_eq client_eval)

lemma failedThrice_eq:
  "failedThrice = connectedClient
     \<lparr>status := Disconnected, reconnectAttempts := 2, reconnectTimer := Some 6,
      timers := [\<lparr>timerHandle = 1, timerDelay = 1500000, callback = RefreshTokenCb\<rparr>,
                 \<lparr>timerHandle = 4, timerDelay = 2000, callback = ReconnectCb\<rparr>,
                 \<lparr>timerHandle = 5, timerDelay = 1000, callback = ReconnectCb\<rparr>,
                 \<lparr>timerHandle = 6, timerDelay = 2000, callback = ReconnectCb\<rparr>],
      nextHandle := 7, fetchesStarted := 3,
      emitted := [CloseEvent 1006, ReconnectingEvent 1 3, ReconnectingEvent 1 3,
                  ReconnectingEvent 2 3, ReconnectingEvent 1 3, ReconnectingEvent 2 3]\<rparr>"
  by (simp add: failedThrice_def failedTwice_eq connectedClient_eq client_eval)

lemma failedFourTimes_eq:
  "failedFourTimes = connectedClient
     \<lparr>status := Disconnected, reconnectAttempts := 2, reconnectTimer := Some 8,
      timers := [\<lparr>timerHandle = 1, timerDelay = 1500000, callback = RefreshTokenCb\<rparr>,
                 \<lparr>timerHandle = 5, timerDelay = 1000, callback = ReconnectCb\<rparr>,
                 \<lparr>timerHandle = 6, timerDelay = 2000, callback = ReconnectCb\<rparr>,
                 \<lparr>timerHandle = 7, timerDelay = 1000, callback = ReconnectCb\<rparr>,
                 \<lparr>timerHandle = 8, timerDelay = 2000, callback = ReconnectCb\<rparr>],
      nextHandle := 9, fetchesStarted := 4,
      emitted := [CloseEvent 1006, ReconnectingEvent 1 3, ReconnectingEvent 1 3,
                  ReconnectingEvent 2 3, ReconnectingEvent 1 3, ReconnectingEvent 2 3,
                  ReconnectingEvent 1 3, ReconnectingEvent 2 3]\<rparr>"
  by (simp add: failedFourTimes_def failedThrice_eq connectedClient_eq client_eval)

section \<open>Client: claims\<close>

subsection \<open>Reconnection backoff\<close>

text \<open>
  Claim C1 at a failing input. A connected client with \<open>retryDelayMs = 1000\<close> and
  \<open>maxRetries = 3\<close> loses its session and every reconnection attempt fails. The drop arms
  a reconnect timer of 1000 ms. Each failed attempt then arms two timers, of 1000 ms and
  of 2000 ms: \<open>connect\<close> sets \<open>reconnectAttempts\<close> back to 0 when it starts, schedules a
  reconnection in its \<open>catch\<close> block and returns \<open>false\<close>, on which the timer callback
  schedules another. After four consecutive failures \<open>reconnectAttempts\<close> is 2, no delay of
  4000 ms was ever scheduled, no \<open>reconnectfailed\<close> event was emitted and four reconnect
  timers are armed.
\<close>

theorem C1_backoff_restarts_after_each_failed_attempt:
  "status connectedClient = Connected \<and> retryDelayMs connectedClient = 1000 \<and> maxRetries connectedClient = 3
   \<and> timers dropped =
        [\<lparr>timerHandle = 1, timerDelay = 1500000, callback = RefreshTokenCb\<rparr>,
         \<lparr>timerHandle = 2, timerDelay = 1000, callback = ReconnectCb\<rparr>]
   \<and> timers failedTwice =
        [\<lparr>timerHandle = 1, timerDelay = 1500000, callback = RefreshTokenCb\<rparr>,
         \<lparr>timerHandle = 3, timerDelay = 1000, callback = ReconnectCb\<rparr>,
         \<lparr>timerHandle = 4, timerDelay = 2000, callback = ReconnectCb\<rparr>]
   \<and> timers failedThrice =
        [\<lparr>timerHandle = 1, timerDelay = 1500000, callback = RefreshTokenCb\<rparr>,
         \<lparr>timerHandle = 4, timerDelay = 2000, callback = ReconnectCb\<rparr>,
         \<lparr>timerHandle = 5, timerDelay = 1000, callback = ReconnectCb\<rparr>,
         \<lparr>timerHandle = 6, timerDelay = 2000, callback = ReconnectCb\<rparr>]
   \<and> timers failedFourTimes =
        [\<lparr>timerHandle = 1, timerDelay = 1500000, callback = RefreshTokenCb\<rparr>,
         \<lparr>timerHandle = 5, timerDelay = 1000, callback = ReconnectCb\<rparr>,
         \<lparr>timerHandle = 6, timerDelay = 2000, callback = ReconnectCb\<rparr>,
         \<lparr>timerHandle = 7, timerDelay = 1000, callback = ReconnectCb\<rparr>,
         \<lparr>timerHandle = 8, timerDelay = 2000, callback = ReconnectCb\<rparr>]
   \<and> reconnectAttempts failedFourTimes = 2
   \<and> emitted failedFourTimes =
        [CloseEvent 1006, ReconnectingEvent 1 3, ReconnectingEvent 1 3, ReconnectingEvent 2 3,
         ReconnectingEvent 1 3, ReconnectingEvent 2 3, ReconnectingEvent 1 3, ReconnectingEvent 2 3]"
  by (simp add: dropped_eq failedTwice_eq failedThrice_eq failedFourTimes_eq) (simp add: connectedClient_eq)

text \<open>
  The same for every client state with \<open>maxRetries \<ge> 2\<close>: a reconnect timer whose attempt
  fails leaves \<open>reconnectAttempts = 2\<close> and arms the delays \<open>retryDelayMs\<close> and
  \<open>2 * retryDelayMs\<close>, without a \<open>reconnectfailed\<close> event.
\<close>

lemma failed_attempt_restarts_backoff:
  assumes "2 \<le> maxRetries c"
    and "tokenResult = Inr None \<or> (\<exists>m. tokenResult = Inl m) \<or> (\<exists>m. openResult = Inl m)"
  shows "reconnectAttempts (reconnectTimerFired c tokenResult openResult now) = 2
       \<and> emitted (reconnectTimerFired c tokenResult openResult now) =
           emitted c @ [ReconnectingEvent 1 (maxRetries c), ReconnectingEvent 2 (maxRetries c)]
       \<and> timers (reconnectTimerFired c tokenResult openResult now) =
           timers c @ [\<lparr>timerHandle = nextHandle c, timerDelay = retryDelayMs c, callback = ReconnectCb\<rparr>,
                       \<lparr>timerHandle = Suc (nextHandle c), timerDelay = retryDelayMs c * 2,
                         callback = ReconnectCb\<rparr>]"
  using assms
  by (auto simp: client_eval split: option.splits sum.splits)

subsection \<open>disconnect\<close>

text \<open>
  What \<open>disconnect\<close> does: with a session handle open it cancels the timers whose handles
  the client holds in \<open>refreshTimer\<close> and \<open>reconnectTimer\<close>, closes the session handle,
  clears the credential reference, resets \<open>reconnectAttempts\<close>, transitions to
  \<open>Disconnected\<close> and returns \<open>true\<close>; a second call returns \<open>false\<close> and changes nothing.
\<close>

lemma disconnect_with_open_session:
  "(\<forall>h. session c = Some h \<longrightarrow>
         disconnect c =
           (True,
            c\<lparr>timers := filter (\<lambda>t. Some (timerHandle t) \<noteq> refreshTimer c \<and>
                                    Some (timerHandle t) \<noteq> reconnectTimer c) (timers c),
              refreshTimer := None, reconnectTimer := None,
              closedSessions := closedSessions c @ [h], session := None,
              status := Disconnected, client := None, currentToken := None,
              tokenExpiresAt := None, reconnectAttempts := 0\<rparr>))
   \<and> disconnect (snd (disconnect c)) = (False, snd (disconnect c))"
  by (cases "session c"; cases "refreshTimer c"; cases "reconnectTimer c")
     (auto simp: disconnect_def clearTimeout_def Let_def intro!: filter_cong)

text \<open>On the connected client, whose only timer is the refresh timer it holds the handle
  of, nothing stays armed.\<close>

lemma disconnect_connectedClient:
  "session connectedClient = Some 7
   \<and> refreshTimer connectedClient = Some 1
   \<and> timers connectedClient = [\<lparr>timerHandle = 1, timerDelay = 1500000, callback = RefreshTokenCb\<rparr>]
   \<and> fst (disconnect connectedClient)
   \<and> timers (snd (disconnect connectedClient)) = []
   \<and> closedSessions (snd (disconnect connectedClient)) = [7]
   \<and> currentToken (snd (disconnect connectedClient)) = None
   \<and> status (snd (disconnect connectedClient)) = Disconnected
   \<and> disconnect (snd (disconnect connectedClient)) = (False, snd (disconnect connectedClient))"
  using disconnect_with_open_session [where c = connectedClient]
  by (simp add: connectedClient_eq disconnect_def clearTimeout_def)

text \<open>
  Claim C3 at failing inputs. The claim has \<open>disconnect\<close> cancel the refresh and the
  reconnect timer in every state, so that no timer armed before can fire afterwards and
  bring the session back.
  \<^item> With a session handle open: after the drop and one failed reconnection attempt, two
    reconnect timers are armed (handles 3 and 4) and the client holds the handle of the
    last one only. \<open>disconnect\<close> returns \<open>true\<close>, cancels timer 4 and the refresh timer, and
    leaves timer 3 armed; when timer 3 fires and the attempt succeeds, the client is
    \<open>Connected\<close> again with a new session.
  \<^item> With no session handle open: after a failed first \<open>connect\<close> a reconnect timer is
    armed; \<open>disconnect\<close> returns \<open>false\<close> at its first line and changes nothing, and the
    timer later connects the client.
\<close>

theorem C3_disconnect_leaves_reconnect_timer_armed:
  "session failedTwice = Some 7
   \<and> reconnectTimer failedTwice = Some 4
   \<and> timers failedTwice =
        [\<lparr>timerHandle = 1, timerDelay = 1500000, callback = RefreshTokenCb\<rparr>,
         \<lparr>timerHandle = 3, timerDelay = 1000, callback = ReconnectCb\<rparr>,
         \<lparr>timerHandle = 4, timerDelay = 2000, callback = ReconnectCb\<rparr>]
   \<and> fst (disconnect failedTwice)
   \<and> status (snd (disconnect failedTwice)) = Disconnected
   \<and> timers (snd (disconnect failedTwice)) =
        [\<lparr>timerHandle = 3, timerDelay = 1000, callback = ReconnectCb\<rparr>]
   \<and> status (fireReconnectTimer 3 (snd (disconnect failedTwice))
               (Inr (Some exampleToken)) (Inr 8) 2000) = Connected
   \<and> session (fireReconnectTimer 3 (snd (disconnect failedTwice))
               (Inr (Some exampleToken)) (Inr 8) 2000) = Some 8
   \<and> session neverConnected = None
   \<and> timers neverConnected = [\<lparr>timerHandle = 1, timerDelay = 1000, callback = ReconnectCb\<rparr>]
   \<and> disconnect neverConnected = (False, neverConnected)
   \<and> status (fireReconnectTimer 1 (snd (disconnect neverConnected))
               (Inr (Some exampleToken)) (Inr 7) 1000) = Connected
   \<and> session (fireReconnectTimer 1 (snd (disconnect neverConnected))
               (Inr (Some exampleToken)) (Inr 7) 1000) = Some 7"
  by (simp add: failedTwice_eq connectedClient_eq neverConnected_eq disconnect_def clearTimeout_def)
     (simp add: client_eval)

subsection \<open>Scheduling the token refresh\<close>

text \<open>
  What \<open>scheduleTokenRefresh\<close> does with an expiry recorded: it computes
  \<open>refreshIn = (expiresAt - now) - refreshThresholdMinutes * 60000\<close> and first cancels the
  timer whose handle is in \<open>refreshTimer\<close>. If \<open>refreshIn > 0\<close> it arms one timer that
  calls \<open>refreshToken\<close> after \<open>refreshIn\<close> and records its handle; if \<open>refreshIn \<le> 0\<close> it arms
  a timer of delay 0 and records no handle. Nothing else of the client changes, so
  \<open>refreshToken\<close> is not called within \<open>scheduleTokenRefresh\<close>. When every armed timer of
  positive delay is the one recorded in \<open>refreshTimer\<close>, the timers of positive delay
  armed afterwards are the new one alone.
\<close>

lemma scheduleTokenRefresh_effect:
  assumes "tokenExpiresAt c = Some e"
  shows
    "(0 < (e - now) - refreshThresholdMinutes c * 60000 \<longrightarrow>
        scheduleTokenRefresh c now =
          c\<lparr>timers :=
               (case refreshTimer c of
                  None \<Rightarrow> timers c
                | Some h \<Rightarrow> filter (\<lambda>t. timerHandle t \<noteq> h) (timers c))
               @ [\<lparr>timerHandle = nextHandle c,
                    timerDelay = (e - now) - refreshThresholdMinutes c * 60000,
                    callback = RefreshTokenCb\<rparr>],
             nextHandle := Suc (nextHandle c),
             refreshTimer := Some (nextHandle c)\<rparr>)
     \<and> ((e - now) - refreshThresholdMinutes c * 60000 \<le> 0 \<longrightarrow>
        scheduleTokenRefresh c now =
          c\<lparr>timers :=
               (case refreshTimer c of
                  None \<Rightarrow> timers c
                | Some h \<Rightarrow> filter (\<lambda>t. timerHandle t \<noteq> h) (timers c))
               @ [\<lparr>timerHandle = nextHandle c, timerDelay = 0, callback = RefreshTokenCb\<rparr>],
             nextHandle := Suc (nextHandle c)\<rparr>)
     \<and> ((\<forall>t \<in> set (timers c). callback t = RefreshTokenCb \<and> 0 < timerDelay t
            \<longrightarrow> refreshTimer c = Some (timerHandle t)) \<longrightarrow>
        filter (\<lambda>t. callback t = RefreshTokenCb \<and> 0 < timerDelay t)
               (timers (scheduleTokenRefresh c now)) =
          (if 0 < (e - now) - refreshThresholdMinutes c * 60000
           then [\<lparr>timerHandle = nextHandle c,
                   timerDelay = (e - now) - refreshThresholdMinutes c * 60000,
                   callback = RefreshTokenCb\<rparr>]
           else []))"
proof -
  have none: "filter (\<lambda>t. callback t = RefreshTokenCb \<and> 0 < timerDelay t)
                (case refreshTimer c of
                   None \<Rightarrow> timers c
                 | Some h \<Rightarrow> filter (\<lambda>t. timerHandle t \<noteq> h) (timers c)) = []"
    if "\<forall>t \<in> set (timers c). callback t = RefreshTokenCb \<and> 0 < timerDelay t
            \<longrightarrow> refreshTimer c = Some (timerHandle t)"
    using that by (auto simp: filter_empty_conv split: option.splits)
  have a: "0 < (e - now) - refreshThresholdMinutes c * 60000 \<Longrightarrow>
        scheduleTokenRefresh c now =
          c\<lparr>timers :=
               (case refreshTimer c of
                  None \<Rightarrow> timers c
                | Some h \<Rightarrow> filter (\<lambda>t. timerHandle t \<noteq> h) (timers c))
               @ [\<lparr>timerHandle = nextHandle c,
                    timerDelay = (e - now) - refreshThresholdMinutes c * 60000,
                    callback = RefreshTokenCb\<rparr>],
             nextHandle := Suc (nextHandle c),
             refreshTimer := Some (nextHandle c)\<rparr>"
    using assms
    by (cases "refreshTimer c") (simp_all add: scheduleTokenRefresh_def setTimeout_def clearTimeout_def Let_def)
  have b: "(e - now) - refreshThresholdMinutes c * 60000 \<le> 0 \<Longrightarrow>
        scheduleTokenRefresh c now =
          c\<lparr>timers :=
               (case refreshTimer c of
                  None \<Rightarrow> timers c
                | Some h \<Rightarrow> filter (\<lambda>t. timerHandle t \<noteq> h) (timers c))
               @ [\<lparr>timerHandle = nextHandle c, timerDelay = 0, callback = RefreshTokenCb\<rparr>],
             nextHandle := Suc (nextHandle c)\<rparr>"
    using assms
    by (cases "refreshTimer c") (simp_all add: scheduleTokenRefresh_def setTimeout_def clearTimeout_def Let_def)
  show ?thesis
  proof (cases "0 < (e - now) - refreshThresholdMinutes c * 60000")
    case True
    with a none show ?thesis by simp
  next
    case False
    then have "(e - now) - refreshThresholdMinutes c * 60000 \<le> 0" by simp
    with b none False show ?thesis by simp
  qed
qed

text \<open>
  A token of 30 minutes with a threshold of 5 minutes is scheduled 25 minutes ahead;
  scheduling again a minute later replaces that timer by one 24 minutes ahead; with 3
  minutes left the refresh is scheduled with delay 0 and nothing is emitted.
\<close>

lemma scheduleTokenRefresh_examples:
  "timers (scheduleTokenRefresh freshlyTokened 0) =
     [\<lparr>timerHandle = 1, timerDelay = 25 * 60 * 1000, callback = RefreshTokenCb\<rparr>]
   \<and> timers (scheduleTokenRefresh (scheduleTokenRefresh freshlyTokened 0) 60000) =
     [\<lparr>timerHandle = 2, timerDelay = 24 * 60 * 1000, callback = RefreshTokenCb\<rparr>]
   \<and> timers (scheduleTokenRefresh freshlyTokened 1620000) =
     [\<lparr>timerHandle = 1, timerDelay = 0, callback = RefreshTokenCb\<rparr>]
   \<and> emitted (scheduleTokenRefresh freshlyTokened 1620000) = []
   \<and> currentToken (scheduleTokenRefresh freshlyTokened 1620000) = Some ''t1''"
  using scheduleTokenRefresh_effect [where c = freshlyTokened and e = 1800000 and now = 0]
    scheduleTokenRefresh_effect [where c = "scheduleTokenRefresh freshlyTokened 0" and e = 1800000 and now = 60000]
    scheduleTokenRefresh_effect [where c = freshlyTokened and e = 1800000 and now = 1620000]
  by (simp add: freshlyTokened_def newClient_def)

text \<open>
  Claim C7 at a failing input. The claim has any refresh timer armed before cancelled
  when a new one is armed, so that refresh timers do not stack. A \<open>refreshToken\<close> call on
  the connected client succeeds at time 1000 with a token that expires 3 minutes later:
  \<open>scheduleTokenRefresh\<close> cancels the recorded timer 1 and arms timer 2 with delay 0,
  without recording its handle. Before timer 2 has fired, \<open>scheduleTokenRefresh\<close> runs
  again: it cancels nothing and arms timer 3, whether with delay 0 (the same token) or
  with a deadline (a second \<open>refreshToken\<close> call succeeds with a token of 30 minutes). Two
  timers that call \<open>refreshToken\<close> are then armed.
\<close>

theorem C7_refresh_timers_stack:
  "tokenExpiresAt refreshedShort = Some 181000
   \<and> refreshThresholdMinutes refreshedShort = 5
   \<and> refreshTimer refreshedShort = Some 1
   \<and> timers refreshedShort = [\<lparr>timerHandle = 2, timerDelay = 0, callback = RefreshTokenCb\<rparr>]
   \<and> timers (scheduleTokenRefresh refreshedShort 1000) =
        [\<lparr>timerHandle = 2, timerDelay = 0, callback = RefreshTokenCb\<rparr>,
         \<lparr>timerHandle = 3, timerDelay = 0, callback = RefreshTokenCb\<rparr>]
   \<and> timers (snd (refreshToken refreshedShort (Some exampleToken) 1000)) =
        [\<lparr>timerHandle = 2, timerDelay = 0, callback = RefreshTokenCb\<rparr>,
         \<lparr>timerHandle = 3, timerDelay = 1499000, callback = RefreshTokenCb\<rparr>]"
  by (simp add: refreshedShort_def shortToken_def connectedClient_eq refreshToken_def client_eval)

subsection \<open>One token request in flight\<close>

lemma getValidTokenCalls_in_flight:
  "pendingTokenRequest c = Some p \<Longrightarrow> getValidTokenCalls n c = (replicate n (p, False), c)"
  by (induction n) (simp_all add: getValidToken_begin_def)

lemma getValidTokenCalls_first:
  assumes "pendingTokenRequest c = None"
  shows "getValidTokenCalls (Suc n) c =
           ((fetchesStarted c, True) # replicate n (fetchesStarted c, False),
            c\<lparr>pendingTokenRequest := Some (fetchesStarted c), fetchesStarted := Suc (fetchesStarted c)\<rparr>)"
  using assms
    getValidTokenCalls_in_flight [of "c\<lparr>pendingTokenRequest := Some (fetchesStarted c),
      fetchesStarted := Suc (fetchesStarted c)\<rparr>" "fetchesStarted c" n]
  by (simp add: getValidToken_begin_def)

lemma pending_scheduleReconnection [simp]:
  "pendingTokenRequest (scheduleReconnection c) = pendingTokenRequest c"
  by (simp add: scheduleReconnection_def setTimeout_def emit_def Let_def)

lemma pending_scheduleTokenRefresh [simp]:
  "pendingTokenRequest (scheduleTokenRefresh c now) = pendingTokenRequest c"
  by (simp add: scheduleTokenRefresh_def setTimeout_def clearTimeout_def Let_def split: option.splits)

lemma pending_connectFailed [simp]:
  "pendingTokenRequest (snd (connectFailed c m)) = pendingTokenRequest c"
  by (simp add: connectFailed_def Let_def)

lemma connect_resume_clears:
  "pendingTokenRequest (snd (connect_resume c True tokenResult openResult now)) = None"
  by (simp add: connect_resume_def getValidToken_settled_def Let_def split: sum.splits option.splits)

text \<open>
  Claim C2. While a token fetch is in flight (\<open>pendingTokenRequest\<close> is set), a call of
  \<open>getValidToken\<close> is handed the promise of that fetch and starts none, and so is every
  call of any number of calls made in a row. With no fetch in flight the first call of a
  row starts one and the others are handed its promise. When the promise has settled,
  with a token, with \<open>null\<close> or with a rejection, the call that started the fetch clears
  the marker (also within \<open>connect\<close>), and the calls that joined leave the state as it is.
  Of two \<open>connect\<close> calls made before the first one's fetch has settled, the second
  returns \<open>false\<close> at once, and the two start exactly one fetch (none, if a fetch was
  already in flight).
\<close>

theorem C2_token_request_deduplicated:
  "(pendingTokenRequest c = Some p \<longrightarrow>
      getValidToken_begin c = ((p, False), c) \<and>
      getValidTokenCalls n c = (replicate n (p, False), c))
   \<and> (pendingTokenRequest c = None \<longrightarrow>
      getValidTokenCalls (Suc n) c =
        ((fetchesStarted c, True) # replicate n (fetchesStarted c, False),
         c\<lparr>pendingTokenRequest := Some (fetchesStarted c), fetchesStarted := Suc (fetchesStarted c)\<rparr>))
   \<and> getValidToken_settled c True result = (result, c\<lparr>pendingTokenRequest := None\<rparr>)
   \<and> getValidToken_settled c False result = (result, c)
   \<and> pendingTokenRequest (snd (connect_resume c True tokenResult openResult now)) = None
   \<and> (status c \<noteq> Connected \<and> status c \<noteq> Connecting \<longrightarrow>
        connect_begin (snd (connect_begin c mdl cfg)) mdl' cfg' =
          (ReturnedFalse, snd (connect_begin c mdl cfg)) \<and>
        fetchesStarted (snd (connect_begin (snd (connect_begin c mdl cfg)) mdl' cfg')) =
          (if pendingTokenRequest c = None then Suc (fetchesStarted c) else fetchesStarted c))"
proof -
  have two: "status c \<noteq> Connected \<and> status c \<noteq> Connecting \<Longrightarrow>
        connect_begin (snd (connect_begin c mdl cfg)) mdl' cfg' =
          (ReturnedFalse, snd (connect_begin c mdl cfg)) \<and>
        fetchesStarted (snd (connect_begin (snd (connect_begin c mdl cfg)) mdl' cfg')) =
          (if pendingTokenRequest c = None then Suc (fetchesStarted c) else fetchesStarted c)"
    by (cases "pendingTokenRequest c") (simp_all add: connect_begin_def getValidToken_begin_def Let_def)
  have joined: "pendingTokenRequest c = Some p \<Longrightarrow> getValidToken_begin c = ((p, False), c)"
    by (simp add: getValidToken_begin_def)
  have settled: "getValidToken_settled c True result = (result, c\<lparr>pendingTokenRequest := None\<rparr>)"
    "getValidToken_settled c False result = (result, c)"
    by (simp_all add: getValidToken_settled_def)
  show ?thesis
    using two joined settled getValidTokenCalls_in_flight [of c p n] getValidTokenCalls_first [of c n]
      connect_resume_clears [of c tokenResult openResult now]
    by blast
qed

text \<open>C2 at concrete inputs: a new client, two \<open>connect\<close> calls, three \<open>getValidToken\<close>
  calls, and a fetch that is rejected.\<close>

theorem C2_witness:
  "status (newClient ''s1'') = Disconnected \<and> pendingTokenRequest (newClient ''s1'') = None
   \<and> fst (connect_begin (newClient ''s1'') ''model'' ''cfg'') = AwaitingToken 0 True
   \<and> fst (connect_begin (snd (connect_begin (newClient ''s1'') ''model'' ''cfg'')) ''model'' ''cfg'')
        = ReturnedFalse
   \<and> fetchesStarted
        (snd (connect_begin (snd (connect_begin (newClient ''s1'') ''model'' ''cfg'')) ''model'' ''cfg'')) = 1
   \<and> fst (getValidTokenCalls 3 (newClient ''s1'')) = [(0, True), (0, False), (0, False)]
   \<and> fetchesStarted (snd (getValidTokenCalls 3 (newClient ''s1''))) = 1
   \<and> pendingTokenRequest (snd (getValidToken_settled (snd (getValidTokenCalls 3 (newClient ''s1'')))
        True (Inl ''fetch failed''))) = None"
  using C2_token_request_deduplicated [where c = "newClient ''s1''" and n = 2
      and mdl = "''model''" and cfg = "''cfg''" and mdl' = "''model''" and cfg' = "''cfg''"]
    C2_token_request_deduplicated [where c = "snd (getValidTokenCalls 3 (newClient ''s1''))"
      and result = "Inl ''fetch failed''"]
  by (simp add: newClient_def connect_begin_def getValidToken_begin_def Let_def numeral_3_eq_3)


end
